theory Spec2Isabelle
  imports Complex_Main
begin

section \<open>Values of the host language\<close>

text \<open>
  A JavaScript number is a double: not-a-number, an infinity, or a finite value. Only
  comparisons are computed on it here; they are exact on doubles, so a finite double is
  carried as the real number it denotes. Addition of doubles rounds, so it is never
  computed here: it is taken from the platform (see \<open>platform\<close> below).
\<close>

datatype jsnum = NaN | NegInf | Num real | PosInf

fun isNaN :: "jsnum \<Rightarrow> bool" where
  "isNaN NaN = True"
| "isNaN _ = False"

text \<open>\<open>js_gt a b\<close> is the value of the expression \<open>a > b\<close>.\<close>

fun js_gt :: "jsnum \<Rightarrow> jsnum \<Rightarrow> bool" where
  "js_gt NaN _ = False"
| "js_gt _ NaN = False"
| "js_gt NegInf _ = False"
| "js_gt _ NegInf = True"
| "js_gt _ PosInf = False"
| "js_gt PosInf _ = True"
| "js_gt (Num a) (Num b) = (a > b)"

text \<open>
  A request parameter as the handler may find it: absent, a boolean, a string, a number,
  or some other object (an array, a nested object).
\<close>

datatype jsval = JUndefined | JBool bool | JStr string | JNum jsnum | JObject

text \<open>
  A date parameter after lines 60-61 of the gate: a string has become a \<open>Date\<close>, whose
  time value is a whole number of milliseconds or is invalid (\<open>None\<close>, read as NaN by
  \<open>getTime\<close>); a value that was neither a string nor a \<open>Date\<close> stays what it was, and
  calling \<open>getTime\<close> on it throws.
\<close>

datatype dateval = DateObj "int option" | NotADate

datatype error = TypeError | RangeError | Thrown string

fun getTime :: "dateval \<Rightarrow> error + int option" where
  "getTime (DateObj t) = Inr t"
| "getTime NotADate = Inl TypeError"

text \<open>\<open>time_lt a b\<close> is \<open>a < b\<close> on two time values; a comparison with NaN is false.\<close>

fun time_lt :: "int option \<Rightarrow> int option \<Rightarrow> bool" where
  "time_lt (Some a) (Some b) = (a < b)"
| "time_lt _ _ = False"

text \<open>\<open>span_gt e s d\<close> is \<open>e - s > d\<close> on two time values.\<close>

fun span_gt :: "int option \<Rightarrow> int option \<Rightarrow> int \<Rightarrow> bool" where
  "span_gt (Some e) (Some s) d = (e - s > d)"
| "span_gt _ _ _ = False"

section \<open>Data model of the top controller\<close>

datatype TaskStatus = ERROR | SUCCESS | IN_PROGRESS

fun TaskStatus_name :: "TaskStatus \<Rightarrow> string" where
  "TaskStatus_name ERROR = ''ERROR''"
| "TaskStatus_name SUCCESS = ''SUCCESS''"
| "TaskStatus_name IN_PROGRESS = ''IN_PROGRESS''"

definition CONTRIBUTIONS :: string where
  "CONTRIBUTIONS = ''contributions''"

definition REWARDS :: string where
  "REWARDS = ''rewards''"

definition PROJECTS :: string where
  "PROJECTS = ''projects''"

text \<open>
  A contribution record as the aggregation returns it. \<open>created\<close> is the time value of
  \<open>new Date(post.created)\<close>; a field that the record does not carry is \<open>None\<close>.
\<close>

record post =
  ident :: string
  created :: "int option"
  pending_payout_value :: "string option"
  total_payout_value :: "string option"
  active_votes :: "string list option"

text \<open>
  An element of the result array: a contribution, or a project group whose members are
  in \<open>posts\<close>. \<open>rewards\<close> is the computed total, when one was stored.
\<close>

record entry = post +
  posts :: "post list option"
  rewards :: "jsnum option"

text \<open>
  A task object. Its three properties are optional because the eviction callback
  deletes a property of the task by name.
\<close>

record TaskModel =
  status :: "TaskStatus option"
  statusMessage :: "string option"
  results :: "entry list option"

record TopQueryParams =
  limit :: jsnum
  start_date :: dateval
  end_date :: dateval
  sort_by :: string
  retrieve_by :: string
  include_rewards :: bool
  only_new :: bool

record CacheableQueryParams = TopQueryParams +
  cacheId :: string

text \<open>
  \<open>req.query\<close> on entry to the gate. \<open>q_limit\<close> is the double that \<open>Number(limit)\<close>
  yields and the two dates are the values after the string-to-Date step; \<open>None\<close> is an
  absent parameter, which takes its default. The two flags are raw, since their coercion
  (\<open>getBoolean\<close>) is code of the controller.
\<close>

record ReqQuery =
  q_limit :: "jsnum option"
  q_start_date :: "dateval option"
  q_end_date :: "dateval option"
  q_sort_by :: "string option"
  q_retrieve_by :: "string option"
  q_include_rewards :: jsval
  q_only_new :: jsval

section \<open>The process-wide state\<close>

text \<open>
  \<open>cache\<close> maps a fingerprint to a reference to a task object; \<open>objs\<close> is the store of
  task objects, so that the runner's local reference \<open>cached\<close> and the cache entry can
  name the same object. \<open>timers\<close> are the pending \<open>setTimeout\<close> callbacks of the runner,
  each with its due time, the task object it closes over and the key it deletes.
  \<open>clock\<close> is the current time in milliseconds.
\<close>

record timer =
  due :: int
  target :: nat
  tkey :: string

record state =
  cache :: "string \<rightharpoonup> nat"
  objs :: "nat \<Rightarrow> TaskModel"
  next_ref :: nat
  timers :: "timer list"
  clock :: int

datatype json = ErrorPayload string | TaskPayload TaskModel | UndefinedPayload

datatype next_arg = NextPlain | NextError error

text \<open>
  What one call of the gate did: the value it returned, the bodies passed to
  \<open>res.json\<close> in order, the call of \<open>next\<close> if any, the new \<open>req.query\<close> if it was
  assigned, and the state afterwards.
\<close>

record gate_result =
  returned :: bool
  sent :: "json list"
  next_called :: "next_arg option"
  req_query :: "CacheableQueryParams option"
  state_after :: state

section \<open>The admission gate\<close>

definition getBoolean :: "jsval \<Rightarrow> bool" where
  "getBoolean val = (val = JBool True \<or> val = JStr ''true'')"

definition currentDay :: "int \<Rightarrow> dateval" where
  "currentDay now = DateObj (Some (now - now mod 86400000))"

definition limit_error :: string where
  "limit_error = ''limit is invalid or too high''"

definition range_error :: string where
  "range_error = ''date range with rewards included must be less than 8 days apart''"

text \<open>
  The condition of line 71-72. The right operand of \<open>&&\<close> is evaluated only when the
  left one holds; \<open>end_date.getTime()\<close> is called before \<open>start_date.getTime()\<close>.
\<close>

definition range_too_long :: "bool \<Rightarrow> string \<Rightarrow> dateval \<Rightarrow> dateval \<Rightarrow> error + bool" where
  "range_too_long incl retr sd ed =
     (if incl \<or> retr = CONTRIBUTIONS then
        (case getTime ed of
           Inl e \<Rightarrow> Inl e
         | Inr te \<Rightarrow>
             (case getTime sd of
                Inl e \<Rightarrow> Inl e
              | Inr ts \<Rightarrow> Inr (span_gt te ts (8 * 24 * 60 * 60 * 1000))))
      else Inr False)"

definition normalize_query :: "int \<Rightarrow> ReqQuery \<Rightarrow> TopQueryParams" where
  "normalize_query now rq =
     \<lparr> limit = (case q_limit rq of None \<Rightarrow> Num 5 | Some n \<Rightarrow> n),
       start_date = (case q_start_date rq of None \<Rightarrow> DateObj (Some 0) | Some d \<Rightarrow> d),
       end_date = (case q_end_date rq of None \<Rightarrow> currentDay now | Some d \<Rightarrow> d),
       sort_by = (case q_sort_by rq of None \<Rightarrow> CONTRIBUTIONS | Some s \<Rightarrow> s),
       retrieve_by = (case q_retrieve_by rq of None \<Rightarrow> PROJECTS | Some s \<Rightarrow> s),
       include_rewards =
         getBoolean (if q_include_rewards rq = JUndefined then JBool False
                     else q_include_rewards rq),
       only_new =
         getBoolean (if q_only_new rq = JUndefined then JBool False else q_only_new rq) \<rparr>"

text \<open>
  Lines 96-115: the cache lookup and the admission decision, for a query that got past
  the \<open>try\<close> block. \<open>pre\<close> holds what \<open>res.json\<close> was already given.
\<close>

definition lookup_and_admit ::
  "(TopQueryParams \<Rightarrow> string) \<Rightarrow> json list \<Rightarrow> TopQueryParams \<Rightarrow> state \<Rightarrow> gate_result" where
  "lookup_and_admit digest pre query s =
     (let cid = digest query in
      case cache s cid of
        Some r \<Rightarrow>
          (let cached = objs s r;
               s' = (if status cached = Some ERROR
                     then s\<lparr>cache := (cache s)(cid := None)\<rparr> else s)
           in \<lparr> returned = True,
                sent = pre @ [case cache s' cid of
                                None \<Rightarrow> UndefinedPayload
                              | Some r' \<Rightarrow> TaskPayload (objs s' r')],
                next_called = None,
                req_query = None,
                state_after = s' \<rparr>)
      | None \<Rightarrow>
          (let rq' = TopQueryParams.extend query (CacheableQueryParams.fields cid) in
           if \<not> include_rewards query
           then \<lparr> returned = True, sent = pre, next_called = Some NextPlain,
                  req_query = Some rq', state_after = s \<rparr>
           else \<lparr> returned = False, sent = pre, next_called = None,
                  req_query = Some rq', state_after = s \<rparr>))"

text \<open>
  \<open>digest\<close> is the MD5 hex digest of \<open>JSON.stringify(query)\<close>, a library function.
\<close>

definition bypassRateLimit ::
  "(TopQueryParams \<Rightarrow> string) \<Rightarrow> ReqQuery \<Rightarrow> state \<Rightarrow> gate_result" where
  "bypassRateLimit digest rq s =
     (let query = normalize_query (clock s) rq in
      if isNaN (limit query) \<or> js_gt (limit query) (Num 100)
      then \<lparr> returned = True, sent = [ErrorPayload limit_error], next_called = None,
             req_query = None, state_after = s \<rparr>
      else
        (case range_too_long (include_rewards query) (retrieve_by query)
                (start_date query) (end_date query) of
           Inl e \<Rightarrow> \<lparr> returned = True, sent = [], next_called = Some (NextError e),
                      req_query = None, state_after = s \<rparr>
         | Inr too_long \<Rightarrow>
             lookup_and_admit digest
               (if too_long then [ErrorPayload range_error] else []) query s))"

section \<open>The task runner\<close>

text \<open>
  What the runner takes from the platform: \<open>parseFloat\<close>, the addition of doubles, and
  the message text of the engine's own errors.
\<close>

record platform =
  parseFloat :: "string \<Rightarrow> jsnum"
  js_add :: "jsnum \<Rightarrow> jsnum \<Rightarrow> jsnum"
  engine_message :: "error \<Rightarrow> string"

fun message :: "platform \<Rightarrow> error \<Rightarrow> string" where
  "message pf (Thrown m) = m"
| "message pf e = engine_message pf e"

text \<open>\<open>first_field s\<close> is \<open>s.split(' ')[0]\<close>: the text before the first space.\<close>

definition first_field :: "string \<Rightarrow> string" where
  "first_field s = takeWhile (\<lambda>c. c \<noteq> CHR '' '') s"

text \<open>
  \<open>postRewards\<close> returns the total and the record with both payout fields cleared.
  \<open>split\<close> on a field that holds no string throws.
\<close>

definition postRewards :: "platform \<Rightarrow> 'a post_scheme \<Rightarrow> error + (jsnum \<times> 'a post_scheme)" where
  "postRewards pf p =
     (case pending_payout_value p of
        None \<Rightarrow> Inl TypeError
      | Some pe \<Rightarrow>
          (case total_payout_value p of
             None \<Rightarrow> Inl TypeError
           | Some pa \<Rightarrow>
               Inr (js_add pf (parseFloat pf (first_field pe)) (parseFloat pf (first_field pa)),
                    p\<lparr>pending_payout_value := None, total_payout_value := None\<rparr>)))"

text \<open>
  The test \<open>params.only_new && new Date(post.created).getTime() < params.start_date.getTime()\<close>
  of lines 152 and 173.
\<close>

definition predates :: "CacheableQueryParams \<Rightarrow> 'a post_scheme \<Rightarrow> error + bool" where
  "predates ps p =
     (if only_new ps then
        (case getTime (start_date ps) of
           Inl e \<Rightarrow> Inl e
         | Inr ts \<Rightarrow> Inr (time_lt (created p) ts))
      else Inr False)"

text \<open>
  Lines 151-157, the loop over the members of one group: the result is the
  \<open>blacklist\<close> flag, the running total and the members as the loop left them. The
  loop stops at the first member that predates \<open>start_date\<close>.
\<close>

fun scan_posts ::
  "platform \<Rightarrow> CacheableQueryParams \<Rightarrow> post list \<Rightarrow> jsnum \<Rightarrow> error + (bool \<times> jsnum \<times> post list)" where
  "scan_posts pf ps [] rw = Inr (False, rw, [])"
| "scan_posts pf ps (p # rest) rw =
     (case predates ps p of
        Inl e \<Rightarrow> Inl e
      | Inr True \<Rightarrow> Inr (True, rw, p # rest)
      | Inr False \<Rightarrow>
          (if include_rewards ps then
             (case postRewards pf p of
                Inl e \<Rightarrow> Inl e
              | Inr (r, p') \<Rightarrow>
                  (case scan_posts pf ps rest (js_add pf rw r) of
                     Inl e \<Rightarrow> Inl e
                   | Inr (b, rw', rest') \<Rightarrow> Inr (b, rw', p' # rest')))
           else
             (case scan_posts pf ps rest rw of
                Inl e \<Rightarrow> Inl e
              | Inr (b, rw', rest') \<Rightarrow> Inr (b, rw', p # rest'))))"

text \<open>
  Lines 147-165: \<open>project_loop pf ps n data\<close> runs the iterations for the indices
  \<open>n - 1\<close> down to \<open>0\<close>; the runner starts it at \<open>n = data.length\<close>. \<open>splice(i, 1)\<close>
  removes the element at \<open>i\<close>.
\<close>

fun project_loop ::
  "platform \<Rightarrow> CacheableQueryParams \<Rightarrow> nat \<Rightarrow> entry list \<Rightarrow> error + entry list" where
  "project_loop pf ps 0 data = Inr data"
| "project_loop pf ps (Suc i) data =
     (let repo = data ! i in
      case posts repo of
        None \<Rightarrow> Inl TypeError
      | Some members \<Rightarrow>
          (case scan_posts pf ps members (Num 0) of
             Inl e \<Rightarrow> Inl e
           | Inr (blacklist, rw, members') \<Rightarrow>
               (if blacklist then project_loop pf ps i (take i data @ drop (Suc i) data)
                else if include_rewards ps then
                  project_loop pf ps i
                    (data[i := repo\<lparr>posts := Some members', rewards := Some rw\<rparr>])
                else project_loop pf ps i (data[i := repo\<lparr>posts := Some members'\<rparr>]))))"

definition process_projects ::
  "platform \<Rightarrow> CacheableQueryParams \<Rightarrow> entry list \<Rightarrow> error + entry list" where
  "process_projects pf ps data =
     (case (if only_new ps \<or> include_rewards ps
            then project_loop pf ps (length data) data else Inr data) of
        Inl e \<Rightarrow> Inl e
      | Inr d \<Rightarrow> Inr (map (\<lambda>repo. repo\<lparr>posts := None\<rparr>) d))"

text \<open>Lines 171-179, indexed as \<open>project_loop\<close> is.\<close>

fun contribution_loop ::
  "platform \<Rightarrow> CacheableQueryParams \<Rightarrow> nat \<Rightarrow> entry list \<Rightarrow> error + entry list" where
  "contribution_loop pf ps 0 data = Inr data"
| "contribution_loop pf ps (Suc i) data =
     (let p = data ! i in
      case predates ps p of
        Inl e \<Rightarrow> Inl e
      | Inr True \<Rightarrow> contribution_loop pf ps i (take i data @ drop (Suc i) data)
      | Inr False \<Rightarrow>
          (if include_rewards ps then
             (case postRewards pf p of
                Inl e \<Rightarrow> Inl e
              | Inr (r, p') \<Rightarrow> contribution_loop pf ps i (data[i := p'\<lparr>rewards := Some r\<rparr>]))
           else contribution_loop pf ps i data))"

text \<open>
  \<open>Array.prototype.sort\<close> with a comparator, as a stable insertion sort:
  \<open>after a b\<close> says that the comparator is positive on \<open>(a, b)\<close>, so that \<open>a\<close> goes
  behind \<open>b\<close>. Every stable sort gives this order when the comparator is consistent.
  When it is not (a reward that is NaN makes \<open>b.rewards - a.rewards\<close> NaN), the
  order is the engine's own and may differ from this one; the properties below use only
  that sorting keeps the elements and their number.
\<close>

fun js_insert :: "('a \<Rightarrow> 'a \<Rightarrow> bool) \<Rightarrow> 'a \<Rightarrow> 'a list \<Rightarrow> 'a list" where
  "js_insert after x [] = [x]"
| "js_insert after x (y # ys) =
     (if after x y then y # js_insert after x ys else x # y # ys)"

definition js_sort :: "('a \<Rightarrow> 'a \<Rightarrow> bool) \<Rightarrow> 'a list \<Rightarrow> 'a list" where
  "js_sort after xs = foldr (js_insert after) xs []"

definition votes :: "entry \<Rightarrow> nat" where
  "votes e = (case active_votes e of None \<Rightarrow> 0 | Some v \<Rightarrow> length v)"

text \<open>
  Line 181. The comparator reads \<open>active_votes.length\<close> of both arguments, which throws
  on a record without that array; it is called on every element once there are two.
\<close>

definition sort_by_votes :: "entry list \<Rightarrow> error + entry list" where
  "sort_by_votes data =
     (if 2 \<le> length data \<and> (\<exists>e \<in> set data. active_votes e = None) then Inl TypeError
      else Inr (js_sort (\<lambda>a b. votes b > votes a) data))"

definition process_contributions ::
  "platform \<Rightarrow> CacheableQueryParams \<Rightarrow> entry list \<Rightarrow> error + entry list" where
  "process_contributions pf ps data =
     (case contribution_loop pf ps (length data) data of
        Inl e \<Rightarrow> Inl e
      | Inr d \<Rightarrow> (if sort_by ps = CONTRIBUTIONS then sort_by_votes d else Inr d))"

text \<open>
  Line 186: \<open>b.rewards - a.rewards\<close> is positive exactly when \<open>b.rewards > a.rewards\<close>;
  a missing \<open>rewards\<close> makes the difference NaN.
\<close>

definition rewards_num :: "entry \<Rightarrow> jsnum" where
  "rewards_num e = (case rewards e of None \<Rightarrow> NaN | Some r \<Rightarrow> r)"

definition sort_by_rewards :: "entry list \<Rightarrow> entry list" where
  "sort_by_rewards data = js_sort (\<lambda>a b. js_gt (rewards_num b) (rewards_num a)) data"

text \<open>
  Line 189. Assigning \<open>data.length\<close> a value that is not a whole number in
  \<open>[0, 2^32)\<close> throws a \<open>RangeError\<close>.
\<close>

definition truncate_to :: "jsnum \<Rightarrow> 'a list \<Rightarrow> error + 'a list" where
  "truncate_to bound data =
     (if js_gt (Num (real (length data))) bound then
        (case bound of
           Num x \<Rightarrow>
             (if 0 \<le> x \<and> x \<in> \<int> \<and> x < 2 ^ 32 then Inr (take (nat \<lfloor>x\<rfloor>) data)
              else Inl RangeError)
         | _ \<Rightarrow> Inl RangeError)
      else Inr data)"

text \<open>
  Lines 126-131: the arguments of the call of \<open>updateRewards\<close>, if it is called. The
  third one is the limiter, \<open>None\<close> for \<open>undefined\<close>.
\<close>

definition updateRewards_call ::
  "CacheableQueryParams \<Rightarrow> (dateval \<times> dateval \<times> jsnum option) option" where
  "updateRewards_call ps =
     (if include_rewards ps \<or> retrieve_by ps = CONTRIBUTIONS then
        Some (start_date ps, end_date ps,
              if retrieve_by ps = PROJECTS \<and> sort_by ps = CONTRIBUTIONS
              then Some (limit ps) else None)
      else None)"

text \<open>
  Lines 133-142: the stages handed to \<open>Post.aggregate\<close>. The match stage is the call
  \<open>aggregateMatch(match_start, match_end)\<close> with \<open>None\<close> for \<open>undefined\<close>; the group
  stage, when there is one, is \<open>aggregateGroup\<close> of the reward projections or of
  \<open>undefined\<close>.
\<close>

datatype group_arg = NoGroup | GroupBy "(string \<times> string) list option"

record aggregate_query =
  match_start :: "dateval option"
  match_end :: dateval
  group_stage :: group_arg

definition aggregateQuery :: "CacheableQueryParams \<Rightarrow> aggregate_query" where
  "aggregateQuery ps =
     \<lparr> match_start = (if only_new ps then None else Some (start_date ps)),
       match_end = end_date ps,
       group_stage =
         (if retrieve_by ps = PROJECTS then
            GroupBy (if include_rewards ps
                     then Some [(''total_pending_rewards'', ''$total_pending_payout_value''),
                                (''total_payout_value'', ''$total_payout_value'')]
                     else None)
          else NoGroup) \<rparr>"

text \<open>
  The two collaborators the runner awaits: \<open>updateRewards\<close> resolves (\<open>None\<close>) or
  rejects with a message, and building and running the aggregation yields the records
  or fails with a message.
\<close>

record external =
  updateRewards_result :: "string option"
  aggregate :: "aggregate_query \<Rightarrow> string + entry list"

text \<open>The body of the \<open>try\<close> block up to line 189: the final array, or what was thrown.\<close>

definition top_body :: "platform \<Rightarrow> CacheableQueryParams \<Rightarrow> external \<Rightarrow> error + entry list" where
  "top_body pf ps ext =
     (case (case updateRewards_call ps of
              None \<Rightarrow> None
            | Some args \<Rightarrow> updateRewards_result ext) of
        Some m \<Rightarrow> Inl (Thrown m)
      | None \<Rightarrow>
          (case aggregate ext (aggregateQuery ps) of
             Inl m \<Rightarrow> Inl (Thrown m)
           | Inr data \<Rightarrow>
               (case (if retrieve_by ps = PROJECTS then process_projects pf ps data
                      else if retrieve_by ps = CONTRIBUTIONS
                      then process_contributions pf ps data
                      else Inr data) of
                  Inl e \<Rightarrow> Inl e
                | Inr d \<Rightarrow>
                    truncate_to (limit ps)
                      (if include_rewards ps \<and> sort_by ps = REWARDS
                       then sort_by_rewards d else d))))"

text \<open>
  Lines 118-123: the runner stores a fresh task object under the fingerprint and sends
  it. The result is the reference \<open>cached\<close>, the body sent and the new state.
\<close>

definition top_begin :: "CacheableQueryParams \<Rightarrow> state \<Rightarrow> nat \<times> json \<times> state" where
  "top_begin ps s =
     (let r = next_ref s;
          cached = \<lparr> status = Some IN_PROGRESS,
                     statusMessage = Some (TaskStatus_name IN_PROGRESS),
                     results = None \<rparr>
      in (r, TaskPayload cached,
          s\<lparr> cache := (cache s)(cacheId ps \<mapsto> r),
             objs := (objs s)(r := cached),
             next_ref := Suc r \<rparr>))"

text \<open>
  Lines 190-200, once the awaited work is over: the task object behind \<open>cached\<close> is
  finalized, and on success the eviction callback is scheduled.
\<close>

definition top_finish ::
  "platform \<Rightarrow> CacheableQueryParams \<Rightarrow> nat \<Rightarrow> error + entry list \<Rightarrow> state \<Rightarrow> state" where
  "top_finish pf ps r outcome s =
     (case outcome of
        Inr data \<Rightarrow>
          s\<lparr> objs := (objs s)(r := (objs s r)\<lparr> status := Some SUCCESS,
                                              statusMessage := Some (TaskStatus_name SUCCESS),
                                              results := Some data \<rparr>),
             timers := timers s @
               [\<lparr> due = clock s + (if include_rewards ps then 1000 * 60 * 60 * 12
                                   else 1000 * 60 * 5),
                  target = r, tkey = cacheId ps \<rparr>] \<rparr>
      | Inl e \<Rightarrow>
          s\<lparr> objs := (objs s)(r := (objs s r)\<lparr> status := Some ERROR,
                                              statusMessage := Some (message pf e) \<rparr>) \<rparr>)"

text \<open>A run of the runner with nothing in between: the body sent and the final state.\<close>

definition top :: "platform \<Rightarrow> CacheableQueryParams \<Rightarrow> external \<Rightarrow> state \<Rightarrow> json \<times> state" where
  "top pf ps ext s =
     (case top_begin ps s of
        (r, body, s1) \<Rightarrow> (body, top_finish pf ps r (top_body pf ps ext) s1))"

section \<open>Timers\<close>

text \<open>\<open>delete obj[k]\<close> on a task object.\<close>

definition delete_property :: "string \<Rightarrow> TaskModel \<Rightarrow> TaskModel" where
  "delete_property k t =
     (if k = ''status'' then t\<lparr>status := None\<rparr>
      else if k = ''statusMessage'' then t\<lparr>statusMessage := None\<rparr>
      else if k = ''results'' then t\<lparr>results := None\<rparr>
      else t)"

text \<open>Lines 193-195, the callback: \<open>delete cached[params.cacheId]\<close>.\<close>

definition fire :: "timer \<Rightarrow> state \<Rightarrow> state" where
  "fire t s = s\<lparr>objs := (objs s)(target t := delete_property (tkey t) (objs s (target t)))\<rparr>"

fun fire_all :: "timer list \<Rightarrow> state \<Rightarrow> state" where
  "fire_all [] s = s"
| "fire_all (t # ts) s = fire_all ts (fire t s)"

text \<open>Time passes by \<open>dt\<close> milliseconds; every timer that is due by then runs.\<close>

definition advance :: "int \<Rightarrow> state \<Rightarrow> state" where
  "advance dt s =
     (let now = clock s + dt in
      (fire_all (filter (\<lambda>t. due t \<le> now) (timers s)) s)
        \<lparr> timers := filter (\<lambda>t. \<not> due t \<le> now) (timers s), clock := now \<rparr>)"

text \<open>The state at module load: \<open>const cache = {}\<close>, no task object, no timer.\<close>

definition initial_state :: "int \<Rightarrow> state" where
  "initial_state now =
     \<lparr> cache = Map.empty,
       objs = (\<lambda>r. \<lparr> status = None, statusMessage = None, results = None \<rparr>),
       next_ref = 0, timers = [], clock = now \<rparr>"

section \<open>Reward totals and loop results\<close>

text \<open>
  The reward total in the specification's words: the parsed pending payout plus the
  parsed paid payout, each parsed from the text before the first space. It is defined
  only for a record that carries both payout strings.
\<close>

definition payout_sum :: "platform \<Rightarrow> 'a post_scheme \<Rightarrow> jsnum option" where
  "payout_sum pf p =
     (case pending_payout_value p of
        None \<Rightarrow> None
      | Some pe \<Rightarrow>
          (case total_payout_value p of
             None \<Rightarrow> None
           | Some pa \<Rightarrow>
               Some (js_add pf (parseFloat pf (first_field pe)) (parseFloat pf (first_field pa)))))"

text \<open>
  What the loops leave behind, used to state their results. \<open>contribution_done p y\<close>:
  the contribution \<open>p\<close> was kept and \<open>y\<close> is what became of it. \<open>project_done g y\<close>:
  the group \<open>g\<close> was kept and \<open>y\<close> is what became of it, up to its member list.
\<close>

definition contribution_done ::
  "platform \<Rightarrow> CacheableQueryParams \<Rightarrow> entry \<Rightarrow> entry \<Rightarrow> bool" where
  "contribution_done pf ps p y \<longleftrightarrow>
     predates ps p = Inr False \<and>
     (if include_rewards ps
      then (\<exists>t. payout_sum pf p = Some t \<and>
                y = p\<lparr>pending_payout_value := None, total_payout_value := None,
                       rewards := Some t\<rparr>)
      else y = p)"

definition project_done ::
  "platform \<Rightarrow> CacheableQueryParams \<Rightarrow> entry \<Rightarrow> entry \<Rightarrow> bool" where
  "project_done pf ps g y \<longleftrightarrow>
     (\<exists>ms. posts g = Some ms \<and> (\<forall>p \<in> set ms. predates ps p = Inr False) \<and>
        (if include_rewards ps
         then \<exists>ts. map (payout_sum pf) ms = map Some ts \<and>
                y\<lparr>posts := None\<rparr> =
                  g\<lparr>posts := None, rewards := Some (foldl (js_add pf) (Num 0) ts)\<rparr>
         else y\<lparr>posts := None\<rparr> = g\<lparr>posts := None\<rparr>))"

text \<open>
  The results in the specification's words. A record is too old when \<open>only_new\<close> is
  set and it was created before \<open>start_date\<close>; a group is too old when one of its
  members is. \<open>rewarded\<close> is a contribution with its total stored and its payout
  fields cleared; \<open>group_rewarded\<close> is a group without its member list and with the
  totals of its members added up from 0, in order.
\<close>

definition too_old :: "CacheableQueryParams \<Rightarrow> int option \<Rightarrow> 'a post_scheme \<Rightarrow> bool" where
  "too_old ps ts p \<longleftrightarrow> only_new ps \<and> time_lt (created p) ts"

definition group_too_old :: "CacheableQueryParams \<Rightarrow> int option \<Rightarrow> entry \<Rightarrow> bool" where
  "group_too_old ps ts g \<longleftrightarrow>
     (case posts g of None \<Rightarrow> False | Some ms \<Rightarrow> \<exists>p \<in> set ms. too_old ps ts p)"

definition rewarded :: "platform \<Rightarrow> entry \<Rightarrow> entry" where
  "rewarded pf q =
     q\<lparr>pending_payout_value := None, total_payout_value := None, rewards := payout_sum pf q\<rparr>"

definition group_rewarded :: "platform \<Rightarrow> entry \<Rightarrow> entry" where
  "group_rewarded pf g =
     g\<lparr>posts := None,
       rewards := (case posts g of
                     None \<Rightarrow> None
                   | Some ms \<Rightarrow>
                       map_option (foldl (js_add pf) (Num 0)) (those (map (payout_sum pf) ms)))\<rparr>"

section \<open>The limit range of the data model\<close>

text \<open>
  The data model's words for \<open>limit\<close>: an integer between 1 and 100. This predicate
  follows the specification, not the code; it is what the gate is compared with.
\<close>

fun integer_1_to_100 :: "jsnum \<Rightarrow> bool" where
  "integer_1_to_100 (Num x) = (x \<in> \<int> \<and> 1 \<le> x \<and> x \<le> 100)"
| "integer_1_to_100 _ = False"

section \<open>Inputs for the examples\<close>

text \<open>
  The examples need the library functions at the inputs they use. \<open>fixed_digest h\<close>
  stands for the digest on the one query of an example, whose digest is \<open>h\<close>.
  \<open>parse_decimal\<close> is \<open>parseFloat\<close> on a plain decimal numeral with an optional sign
  and fraction, and \<open>exact_add\<close> adds without rounding; the examples use amounts whose
  sum a double holds exactly.
\<close>

definition fixed_digest :: "string \<Rightarrow> TopQueryParams \<Rightarrow> string" where
  "fixed_digest h q = h"

definition no_params :: ReqQuery where
  "no_params =
     \<lparr> q_limit = None, q_start_date = None, q_end_date = None, q_sort_by = None,
       q_retrieve_by = None, q_include_rewards = JUndefined, q_only_new = JUndefined \<rparr>"

definition is_digit :: "char \<Rightarrow> bool" where
  "is_digit c = (c \<in> set ''0123456789'')"

definition digits_value :: "string \<Rightarrow> nat" where
  "digits_value ds = foldl (\<lambda>n c. 10 * n + (of_char c - 48)) 0 ds"

definition parse_decimal :: "string \<Rightarrow> jsnum" where
  "parse_decimal s =
     (let neg = (take 1 s = ''-'');
          body = (if neg \<or> take 1 s = ''+'' then drop 1 s else s);
          whole = takeWhile is_digit body;
          rest = dropWhile is_digit body;
          frac = (if take 1 rest = ''.'' then takeWhile is_digit (drop 1 rest) else [])
      in if whole = [] \<and> frac = [] then NaN
         else Num ((if neg then - 1 else 1) *
                   (real (digits_value whole) + real (digits_value frac) / 10 ^ length frac)))"

fun exact_add :: "jsnum \<Rightarrow> jsnum \<Rightarrow> jsnum" where
  "exact_add (Num a) (Num b) = Num (a + b)"
| "exact_add NaN _ = NaN"
| "exact_add _ NaN = NaN"
| "exact_add PosInf NegInf = NaN"
| "exact_add NegInf PosInf = NaN"
| "exact_add PosInf _ = PosInf"
| "exact_add _ PosInf = PosInf"
| "exact_add NegInf _ = NegInf"
| "exact_add _ NegInf = NegInf"

fun example_message :: "error \<Rightarrow> string" where
  "example_message TypeError = ''TypeError''"
| "example_message RangeError = ''Invalid array length''"
| "example_message (Thrown m) = m"

definition example_platform :: platform where
  "example_platform =
     \<lparr> parseFloat = parse_decimal, js_add = exact_add, engine_message = example_message \<rparr>"

definition failing_store :: external where
  "failing_store =
     \<lparr> updateRewards_result = None, aggregate = (\<lambda>q. Inl ''connection lost'') \<rparr>"

definition store_of :: "entry list \<Rightarrow> external" where
  "store_of data = \<lparr> updateRewards_result = None, aggregate = (\<lambda>q. Inr data) \<rparr>"

text \<open>Queries as the gate hands them to the runner, and records for the examples.\<close>

definition cheap_query :: CacheableQueryParams where
  "cheap_query =
     \<lparr> limit = Num 5, start_date = DateObj (Some 0), end_date = DateObj (Some 0),
       sort_by = ''contributions'', retrieve_by = ''projects'', include_rewards = False,
       only_new = False, cacheId = ''q6'' \<rparr>"

definition rewards_query :: CacheableQueryParams where
  "rewards_query =
     \<lparr> limit = Num 5, start_date = DateObj (Some 0), end_date = DateObj (Some 0),
       sort_by = ''contributions'', retrieve_by = ''projects'', include_rewards = True,
       only_new = False, cacheId = ''q7'' \<rparr>"

definition only_new_query :: CacheableQueryParams where
  "only_new_query =
     \<lparr> limit = Num 5, start_date = DateObj (Some 80), end_date = DateObj (Some 1000),
       sort_by = ''contributions'', retrieve_by = ''projects'', include_rewards = False,
       only_new = True, cacheId = ''q8'' \<rparr>"

definition contributions_query :: CacheableQueryParams where
  "contributions_query =
     \<lparr> limit = Num 5, start_date = DateObj (Some 80), end_date = DateObj (Some 1000),
       sort_by = ''rewards'', retrieve_by = ''contributions'', include_rewards = True,
       only_new = False, cacheId = ''q9'' \<rparr>"

definition project_rewards_query :: CacheableQueryParams where
  "project_rewards_query =
     \<lparr> limit = Num 5, start_date = DateObj (Some 0), end_date = DateObj (Some 1000),
       sort_by = ''contributions'', retrieve_by = ''projects'', include_rewards = True,
       only_new = False, cacheId = ''q10'' \<rparr>"

definition example_post :: "string \<Rightarrow> int \<Rightarrow> string \<Rightarrow> string \<Rightarrow> post" where
  "example_post name t pending paid =
     \<lparr> ident = name, created = Some t, pending_payout_value = Some pending,
       total_payout_value = Some paid, active_votes = Some [] \<rparr>"

definition example_group :: "string \<Rightarrow> post list \<Rightarrow> entry" where
  "example_group name members =
     \<lparr> ident = name, created = None, pending_payout_value = None,
       total_payout_value = None, active_votes = None,
       posts = Some members, rewards = None \<rparr>"

definition example_contribution :: "string \<Rightarrow> int \<Rightarrow> string \<Rightarrow> string \<Rightarrow> entry" where
  "example_contribution name t pending paid =
     \<lparr> ident = name, created = Some t, pending_payout_value = Some pending,
       total_payout_value = Some paid, active_votes = Some [],
       posts = None, rewards = None \<rparr>"

definition example_groups :: "entry list" where
  "example_groups =
     [example_group ''alpha''
        [example_post ''a1'' 100 ''1.5 SBD'' ''0.000 SBD'',
         example_post ''a2'' 50 ''0.25 SBD'' ''2.000 SBD''],
      example_group ''beta'' [example_post ''b1'' 200 ''3.5 SBD'' ''0.5 SBD'']]"

definition example_contributions :: "entry list" where
  "example_contributions =
     [example_contribution ''c1'' 100 ''1.5 SBD'' ''2.25 SBD'',
      example_contribution ''c2'' 200 ''10.000 SBD'' ''0.5 SBD'']"

section \<open>Properties of the admission gate\<close>

lemmas gate_eval =
  bypassRateLimit_def normalize_query_def no_params_def initial_state_def Let_def
  range_too_long_def lookup_and_admit_def fixed_digest_def getBoolean_def currentDay_def
  CONTRIBUTIONS_def PROJECTS_def REWARDS_def limit_error_def range_error_def
  TopQueryParams.defs CacheableQueryParams.defs

lemma limit_valid_cases:
  "(\<not> isNaN l \<and> \<not> js_gt l (Num 100)) \<longleftrightarrow> (l = NegInf \<or> (\<exists>x. l = Num x \<and> x \<le> 100))"
  by (cases l) auto

lemma req_query_lookup:
  "req_query (lookup_and_admit digest pre q s) = Some c \<Longrightarrow>
     c = TopQueryParams.extend q (CacheableQueryParams.fields (digest q)) \<and>
     cache s (digest q) = None \<and>
     returned (lookup_and_admit digest pre q s) = (\<not> include_rewards q) \<and>
     next_called (lookup_and_admit digest pre q s) =
       (if include_rewards q then None else Some NextPlain)"
  by (auto simp: lookup_and_admit_def Let_def split: option.splits if_splits)

lemma gate_admitted:
  assumes "req_query (bypassRateLimit digest rq s) = Some c"
  shows "TopQueryParams.truncate c = normalize_query (clock s) rq"
    and "cacheId c = digest (normalize_query (clock s) rq)"
    and "\<not> isNaN (limit c)" and "\<not> js_gt (limit c) (Num 100)"
    and "returned (bypassRateLimit digest rq s) = (\<not> include_rewards c)"
    and "next_called (bypassRateLimit digest rq s) =
           (if include_rewards c then None else Some NextPlain)"
proof -
  let ?q = "normalize_query (clock s) rq"
  have ok: "\<not> (isNaN (limit ?q) \<or> js_gt (limit ?q) (Num 100))"
    using assms by (auto simp: bypassRateLimit_def Let_def)
  then obtain pre where g: "bypassRateLimit digest rq s = lookup_and_admit digest pre ?q s"
    using assms by (auto simp: bypassRateLimit_def Let_def split: sum.splits)
  with assms have "req_query (lookup_and_admit digest pre ?q s) = Some c" by simp
  from req_query_lookup[OF this]
  have c: "c = TopQueryParams.extend ?q (CacheableQueryParams.fields (digest ?q))"
    and r: "returned (lookup_and_admit digest pre ?q s) = (\<not> include_rewards ?q)"
    and n: "next_called (lookup_and_admit digest pre ?q s) =
       (if include_rewards ?q then None else Some NextPlain)"
    by blast+
  show "TopQueryParams.truncate c = ?q" using c
    by (simp add: TopQueryParams.defs CacheableQueryParams.defs)
  show "cacheId c = digest ?q" using c
    by (simp add: TopQueryParams.defs CacheableQueryParams.defs)
  show "\<not> isNaN (limit c)" "\<not> js_gt (limit c) (Num 100)" using c ok
    by (simp_all add: TopQueryParams.defs CacheableQueryParams.defs)
  have ic: "include_rewards c = include_rewards ?q" using c
    by (simp add: TopQueryParams.defs CacheableQueryParams.defs)
  show "returned (bypassRateLimit digest rq s) = (\<not> include_rewards c)"
    using g r ic by simp
  show "next_called (bypassRateLimit digest rq s) =
           (if include_rewards c then None else Some NextPlain)"
    using g n ic by simp
qed

lemma include_rewards_normalize:
  "include_rewards (normalize_query now rq) =
     (q_include_rewards rq = JBool True \<or> q_include_rewards rq = JStr ''true'')"
  by (auto simp: normalize_query_def getBoolean_def)

lemma only_new_normalize:
  "only_new (normalize_query now rq) =
     (q_only_new rq = JBool True \<or> q_only_new rq = JStr ''true'')"
  by (auto simp: normalize_query_def getBoolean_def)

text \<open>
  C10: the coercion of \<open>include_rewards\<close> and \<open>only_new\<close> is true for the boolean
  \<open>true\<close> and the string \<open>'true'\<close> and for nothing else; \<open>'True'\<close>, \<open>'TRUE'\<close>,
  \<open>'1'\<close>, the number 1 and \<open>'yes'\<close> all become false. The gate does not reject such a
  request: when it is admitted, its query has no rewards, the gate returns true and
  calls \<open>next()\<close> itself, past the rate limiter.
\<close>

theorem getBoolean_coercion:
  "(getBoolean v \<longleftrightarrow> v = JBool True \<or> v = JStr ''true'')
   \<and> \<not> getBoolean (JStr ''True'') \<and> \<not> getBoolean (JStr ''TRUE'')
   \<and> \<not> getBoolean (JStr ''1'') \<and> \<not> getBoolean (JNum (Num 1))
   \<and> \<not> getBoolean (JStr ''yes'')
   \<and> (include_rewards (normalize_query now rq) \<longleftrightarrow>
        q_include_rewards rq = JBool True \<or> q_include_rewards rq = JStr ''true'')
   \<and> (only_new (normalize_query now rq) \<longleftrightarrow>
        q_only_new rq = JBool True \<or> q_only_new rq = JStr ''true'')
   \<and> (q_include_rewards rq \<noteq> JBool True \<and> q_include_rewards rq \<noteq> JStr ''true'' \<and>
        req_query (bypassRateLimit digest rq s) = Some c \<longrightarrow>
        \<not> include_rewards c \<and> returned (bypassRateLimit digest rq s) \<and>
        next_called (bypassRateLimit digest rq s) = Some NextPlain)"
proof -
  have a: "getBoolean v \<longleftrightarrow> v = JBool True \<or> v = JStr ''true''"
    by (simp add: getBoolean_def)
  have b: "\<not> getBoolean (JStr ''True'')" "\<not> getBoolean (JStr ''TRUE'')"
    "\<not> getBoolean (JStr ''1'')" "\<not> getBoolean (JNum (Num 1))" "\<not> getBoolean (JStr ''yes'')"
    by (simp_all add: getBoolean_def)
  have d: "\<not> include_rewards c \<and> returned (bypassRateLimit digest rq s) \<and>
        next_called (bypassRateLimit digest rq s) = Some NextPlain"
    if h: "q_include_rewards rq \<noteq> JBool True" "q_include_rewards rq \<noteq> JStr ''true''"
      "req_query (bypassRateLimit digest rq s) = Some c"
  proof -
    have "include_rewards (TopQueryParams.truncate c) = include_rewards c"
      by (simp add: TopQueryParams.defs)
    then have "\<not> include_rewards c"
      using gate_admitted(1)[OF h(3)] h(1,2) include_rewards_normalize[of "clock s" rq] by simp
    then show ?thesis using gate_admitted(5,6)[OF h(3)] by simp
  qed
  show ?thesis
    using a b d include_rewards_normalize only_new_normalize by blast
qed

lemma example_yes:
  "bypassRateLimit (fixed_digest ''q1'') (no_params\<lparr>q_include_rewards := JStr ''TRUE''\<rparr>) (initial_state 0) =
     \<lparr> returned = True, sent = [], next_called = Some NextPlain,
       req_query = Some \<lparr> limit = Num 5, start_date = DateObj (Some 0), end_date = DateObj (Some 0),
          sort_by = ''contributions'', retrieve_by = ''projects'', include_rewards = False, only_new = False, cacheId = ''q1'' \<rparr>,
       state_after = initial_state 0 \<rparr>"
  by (simp add: gate_eval)

theorem getBoolean_coercion_witness:
  "\<not> getBoolean (JStr ''TRUE'') \<and>
   next_called (bypassRateLimit (fixed_digest ''q1'')
     (no_params\<lparr>q_include_rewards := JStr ''TRUE''\<rparr>) (initial_state 0)) = Some NextPlain"
  using getBoolean_coercion[of "JStr ''TRUE''" 0 "no_params\<lparr>q_include_rewards := JStr ''TRUE''\<rparr>"
      "fixed_digest ''q1''" "initial_state 0"
      "\<lparr> limit = Num 5, start_date = DateObj (Some 0), end_date = DateObj (Some 0),
          sort_by = ''contributions'', retrieve_by = ''projects'', include_rewards = False, only_new = False, cacheId = ''q1'' \<rparr>"]
  by (simp add: example_yes)

text \<open>
  C6: when \<open>limit\<close> is not a number or is above 100, the gate sends the payload
  \<open>{error: 'limit is invalid or too high'}\<close> and nothing else, returns at once, leaves
  the state as it was (no entry is added to the cache) and neither assigns
  \<open>req.query\<close> nor calls \<open>next\<close>, so no runner is started by it.
\<close>

theorem limit_rejected:
  assumes "q_limit rq = Some n" and "isNaN n \<or> js_gt n (Num 100)"
  shows "bypassRateLimit digest rq s =
     \<lparr> returned = True, sent = [ErrorPayload ''limit is invalid or too high''],
       next_called = None, req_query = None, state_after = s \<rparr>"
  using assms by (simp add: bypassRateLimit_def normalize_query_def Let_def limit_error_def)

theorem limit_rejected_witness:
  "bypassRateLimit (fixed_digest ''q2'') (no_params\<lparr>q_limit := Some (Num 150)\<rparr>) (initial_state 0) =
     \<lparr> returned = True, sent = [ErrorPayload ''limit is invalid or too high''],
       next_called = None, req_query = None, state_after = initial_state 0 \<rparr>
   \<and> bypassRateLimit (fixed_digest ''q2'') (no_params\<lparr>q_limit := Some NaN\<rparr>) (initial_state 0) =
     \<lparr> returned = True, sent = [ErrorPayload ''limit is invalid or too high''],
       next_called = None, req_query = None, state_after = initial_state 0 \<rparr>"
  using limit_rejected[of "no_params\<lparr>q_limit := Some (Num 150)\<rparr>" "Num 150" "fixed_digest ''q2''" "initial_state 0"]
    limit_rejected[of "no_params\<lparr>q_limit := Some NaN\<rparr>" NaN "fixed_digest ''q2''" "initial_state 0"]
  by (simp add: no_params_def)

text \<open>
  C5, as stated, fails: the gate checks only that \<open>limit\<close> is a number and is not
  above 100. The request \<open>limit=-2.5\<close> is admitted with that limit, which is neither
  an integer nor at least 1.
\<close>

theorem fractional_limit_admitted:
  "bypassRateLimit (fixed_digest ''q3'') (no_params\<lparr>q_limit := Some (Num (- 5 / 2))\<rparr>) (initial_state 0) =
     \<lparr> returned = True, sent = [], next_called = Some NextPlain,
       req_query = Some \<lparr> limit = Num (- 5 / 2), start_date = DateObj (Some 0), end_date = DateObj (Some 0),
          sort_by = ''contributions'', retrieve_by = ''projects'', include_rewards = False, only_new = False, cacheId = ''q3'' \<rparr>,
       state_after = initial_state 0 \<rparr>
   \<and> \<not> integer_1_to_100 (Num (- 5 / 2))"
  by (simp add: gate_eval)

text \<open>
  C5, amended: whenever the gate does not answer with the limit error, the limit of the
  normalized query is a number that is at most 100 (minus infinity included), and an
  admitted query carries exactly that limit. No lower bound and no integrality holds.
\<close>

theorem validated_limit_at_most_100:
  assumes "sent (bypassRateLimit digest rq s) \<noteq> [ErrorPayload ''limit is invalid or too high'']"
  shows "(limit (normalize_query (clock s) rq) = NegInf \<or>
          (\<exists>x. limit (normalize_query (clock s) rq) = Num x \<and> x \<le> 100))
       \<and> (\<forall>c. req_query (bypassRateLimit digest rq s) = Some c \<longrightarrow>
             limit c = limit (normalize_query (clock s) rq))"
proof -
  let ?q = "normalize_query (clock s) rq"
  have "\<not> (isNaN (limit ?q) \<or> js_gt (limit ?q) (Num 100))"
    using assms by (auto simp: bypassRateLimit_def Let_def limit_error_def)
  then have 1: "limit ?q = NegInf \<or> (\<exists>x. limit ?q = Num x \<and> x \<le> 100)"
    using limit_valid_cases[of "limit ?q"] by simp
  have 2: "limit c = limit ?q" if "req_query (bypassRateLimit digest rq s) = Some c" for c
  proof -
    have "limit (TopQueryParams.truncate c) = limit c" by (simp add: TopQueryParams.defs)
    then show ?thesis using gate_admitted(1)[OF that] by simp
  qed
  show ?thesis using 1 2 by blast
qed

theorem validated_limit_at_most_100_witness:
  "limit (normalize_query (clock (initial_state 0)) (no_params\<lparr>q_limit := Some (Num (- 5 / 2))\<rparr>)) = Num (- 5 / 2)
   \<and> (- 5 / 2 :: real) \<le> 100"
  using validated_limit_at_most_100[of "fixed_digest ''q3''" "no_params\<lparr>q_limit := Some (Num (- 5 / 2))\<rparr>" "initial_state 0"]
  by (simp add: gate_eval)

text \<open>
  C4: for a query with a valid limit that asks for rewards or for contributions and whose
  dates are more than 8 days apart, the gate sends
  \<open>{error: 'date range with rewards included must be less than 8 days apart'}\<close> and
  goes on as for any other query: the fingerprint is computed and looked up; on a miss
  \<open>req.query\<close> gets the query with its fingerprint and the admission decision is taken,
  on a hit the cached entry is sent as a second body.
\<close>

theorem long_range_is_advisory:
  assumes lim: "\<not> isNaN (limit (normalize_query (clock s) rq))"
      "\<not> js_gt (limit (normalize_query (clock s) rq)) (Num 100)"
    and exp: "include_rewards (normalize_query (clock s) rq) \<or>
         retrieve_by (normalize_query (clock s) rq) = CONTRIBUTIONS"
    and sd: "start_date (normalize_query (clock s) rq) = DateObj (Some ts)"
    and ed: "end_date (normalize_query (clock s) rq) = DateObj (Some te)"
    and span: "te - ts > 8 * 24 * 60 * 60 * 1000"
  shows "bypassRateLimit digest rq s =
           lookup_and_admit digest
             [ErrorPayload ''date range with rewards included must be less than 8 days apart'']
             (normalize_query (clock s) rq) s
       \<and> hd (sent (bypassRateLimit digest rq s)) =
           ErrorPayload ''date range with rewards included must be less than 8 days apart''
       \<and> (cache s (digest (normalize_query (clock s) rq)) = None \<longrightarrow>
            req_query (bypassRateLimit digest rq s) =
              Some (TopQueryParams.extend (normalize_query (clock s) rq)
                     (CacheableQueryParams.fields (digest (normalize_query (clock s) rq))))
          \<and> returned (bypassRateLimit digest rq s) =
              (\<not> include_rewards (normalize_query (clock s) rq))
          \<and> next_called (bypassRateLimit digest rq s) =
              (if include_rewards (normalize_query (clock s) rq) then None else Some NextPlain))
       \<and> (\<forall>r. cache s (digest (normalize_query (clock s) rq)) = Some r \<longrightarrow>
            length (sent (bypassRateLimit digest rq s)) = 2
          \<and> returned (bypassRateLimit digest rq s)
          \<and> next_called (bypassRateLimit digest rq s) = None
          \<and> req_query (bypassRateLimit digest rq s) = None)"
proof -
  let ?q = "normalize_query (clock s) rq"
  let ?e = "ErrorPayload ''date range with rewards included must be less than 8 days apart''"
  have rt: "range_too_long (include_rewards ?q) (retrieve_by ?q) (start_date ?q) (end_date ?q)
              = Inr True"
    using exp sd ed span by (simp add: range_too_long_def)
  have g: "bypassRateLimit digest rq s = lookup_and_admit digest [?e] ?q s"
    using lim rt by (simp add: bypassRateLimit_def Let_def range_error_def)
  have h: "hd (sent (lookup_and_admit digest [?e] ?q s)) = ?e"
    by (simp add: lookup_and_admit_def Let_def split: option.splits)
  have miss: "req_query (lookup_and_admit digest [?e] ?q s) =
              Some (TopQueryParams.extend ?q (CacheableQueryParams.fields (digest ?q)))
          \<and> returned (lookup_and_admit digest [?e] ?q s) = (\<not> include_rewards ?q)
          \<and> next_called (lookup_and_admit digest [?e] ?q s) =
              (if include_rewards ?q then None else Some NextPlain)"
    if "cache s (digest ?q) = None"
    using that by (simp add: lookup_and_admit_def Let_def)
  have hit: "length (sent (lookup_and_admit digest [?e] ?q s)) = 2
          \<and> returned (lookup_and_admit digest [?e] ?q s)
          \<and> next_called (lookup_and_admit digest [?e] ?q s) = None
          \<and> req_query (lookup_and_admit digest [?e] ?q s) = None"
    if "cache s (digest ?q) = Some r" for r
    using that by (simp add: lookup_and_admit_def Let_def)
  show ?thesis unfolding g using h miss hit by blast
qed

lemma example_long_range:
  "bypassRateLimit (fixed_digest ''q4'')
      (no_params\<lparr>q_include_rewards := JStr ''true'',
                 q_start_date := Some (DateObj (Some 1577836800000)),
                 q_end_date := Some (DateObj (Some 1580515200000))\<rparr>) (initial_state 0) =
     \<lparr> returned = False,
       sent = [ErrorPayload ''date range with rewards included must be less than 8 days apart''],
       next_called = None,
       req_query = Some \<lparr> limit = Num 5, start_date = DateObj (Some 1577836800000),
          end_date = DateObj (Some 1580515200000),
          sort_by = ''contributions'', retrieve_by = ''projects'', include_rewards = True,
          only_new = False, cacheId = ''q4'' \<rparr>,
       state_after = initial_state 0 \<rparr>"
  by (simp add: gate_eval)

theorem long_range_is_advisory_witness:
  "sent (bypassRateLimit (fixed_digest ''q4'')
      (no_params\<lparr>q_include_rewards := JStr ''true'',
                 q_start_date := Some (DateObj (Some 1577836800000)),
                 q_end_date := Some (DateObj (Some 1580515200000))\<rparr>) (initial_state 0)) =
     [ErrorPayload ''date range with rewards included must be less than 8 days apart'']
   \<and> map_option cacheId (req_query (bypassRateLimit (fixed_digest ''q4'')
      (no_params\<lparr>q_include_rewards := JStr ''true'',
                 q_start_date := Some (DateObj (Some 1577836800000)),
                 q_end_date := Some (DateObj (Some 1580515200000))\<rparr>) (initial_state 0))) = Some ''q4''"
  using long_range_is_advisory[of "initial_state 0"
      "no_params\<lparr>q_include_rewards := JStr ''true'',
                 q_start_date := Some (DateObj (Some 1577836800000)),
                 q_end_date := Some (DateObj (Some 1580515200000))\<rparr>"
      1577836800000 1580515200000 "fixed_digest ''q4''"]
  by (simp add: example_long_range)

text \<open>
  The admission decision of lines 110-114 looks at \<open>include_rewards\<close> alone: an
  admitted query is left to the rate limiter exactly when it includes rewards.
\<close>

lemma limiter_iff_include_rewards:
  assumes "req_query (bypassRateLimit digest rq s) = Some c"
  shows "returned (bypassRateLimit digest rq s) = (\<not> include_rewards c)"
  using gate_admitted(5)[OF assms] .

text \<open>
  C3 at the request \<open>retrieve_by=contributions\<close> without rewards, over four days: the
  gate returns true and calls \<open>next()\<close> itself, so the rate limiter is not consulted,
  although the runner calls \<open>updateRewards\<close> for this query, without a cap.
\<close>

theorem contributions_bypass_limiter:
  "bypassRateLimit (fixed_digest ''q5'')
      (no_params\<lparr>q_retrieve_by := Some ''contributions'',
                 q_start_date := Some (DateObj (Some 1577836800000)),
                 q_end_date := Some (DateObj (Some 1578182400000))\<rparr>) (initial_state 0) =
     \<lparr> returned = True, sent = [], next_called = Some NextPlain,
       req_query = Some \<lparr> limit = Num 5, start_date = DateObj (Some 1577836800000),
          end_date = DateObj (Some 1578182400000),
          sort_by = ''contributions'', retrieve_by = ''contributions'', include_rewards = False,
          only_new = False, cacheId = ''q5'' \<rparr>,
       state_after = initial_state 0 \<rparr>
   \<and> updateRewards_call \<lparr> limit = Num 5, start_date = DateObj (Some 1577836800000),
          end_date = DateObj (Some 1578182400000),
          sort_by = ''contributions'', retrieve_by = ''contributions'', include_rewards = False,
          only_new = False, cacheId = ''q5'' \<rparr> =
       Some (DateObj (Some 1577836800000), DateObj (Some 1578182400000), None)"
  by (simp add: gate_eval updateRewards_call_def)

section \<open>Properties of the task runner and of the cache\<close>

lemmas top_eval =
  top_def top_begin_def top_finish_def top_body_def updateRewards_call_def aggregateQuery_def
  process_projects_def process_contributions_def truncate_to_def sort_by_rewards_def
  sort_by_votes_def js_sort_def store_of_def failing_store_def example_platform_def
  advance_def fire_def delete_property_def cheap_query_def rewards_query_def



text \<open>
  The eviction callback deletes a property of the task object, not an entry of the
  cache: no timer ever changes the cache, and the entry a run stored stays.
\<close>

lemma cache_fire: "cache (fire t s) = cache s"
  by (simp add: fire_def)

lemma cache_fire_all: "cache (fire_all ts s) = cache s"
  by (induction ts arbitrary: s) (simp_all add: cache_fire)

lemma cache_advance: "cache (advance dt s) = cache s"
  by (simp add: advance_def Let_def cache_fire_all)

lemma cache_top: "cache (snd (top pf ps ext s)) (cacheId ps) = Some (next_ref s)"
  by (simp add: top_def top_begin_def top_finish_def Let_def split: sum.splits)

lemma entry_never_evicted:
  "cache (advance dt (snd (top pf ps ext s))) (cacheId ps) = Some (next_ref s)"
  by (simp add: cache_advance cache_top)

text \<open>
  C1 on two runs from the initial state, one without rewards and one with: one
  millisecond after the delay (5 minutes, 12 hours) the timer has run, the entry is
  still in the cache, and the gate still answers the same query with the finished task.
\<close>

theorem success_entry_survives_eviction:
  "cache (advance (1000 * 60 * 5 + 1)
            (snd (top example_platform cheap_query (store_of []) (initial_state 0)))) ''q6'' = Some 0
   \<and> timers (advance (1000 * 60 * 5 + 1)
            (snd (top example_platform cheap_query (store_of []) (initial_state 0)))) = []
   \<and> sent (bypassRateLimit (fixed_digest ''q6'') no_params
        (advance (1000 * 60 * 5 + 1)
            (snd (top example_platform cheap_query (store_of []) (initial_state 0))))) =
       [TaskPayload \<lparr> status = Some SUCCESS, statusMessage = Some ''SUCCESS'',
                      results = Some [] \<rparr>]
   \<and> cache (advance (1000 * 60 * 60 * 12 + 1)
            (snd (top example_platform rewards_query (store_of []) (initial_state 0)))) ''q7'' = Some 0
   \<and> timers (advance (1000 * 60 * 60 * 12 + 1)
            (snd (top example_platform rewards_query (store_of []) (initial_state 0)))) = []
   \<and> sent (bypassRateLimit (fixed_digest ''q7'') (no_params\<lparr>q_include_rewards := JStr ''true''\<rparr>)
        (advance (1000 * 60 * 60 * 12 + 1)
            (snd (top example_platform rewards_query (store_of []) (initial_state 0))))) =
       [TaskPayload \<lparr> status = Some SUCCESS, statusMessage = Some ''SUCCESS'',
                      results = Some [] \<rparr>]"
  by (simp add: top_eval gate_eval)

text \<open>
  A read of an entry in ERROR state, for a query that got past the checks without a
  range error: the entry is removed, and the body sent is read from the cache after the
  removal, so it is \<open>undefined\<close>.
\<close>

lemma error_hit_general:
  assumes "\<not> isNaN (limit (normalize_query (clock s) rq))"
      "\<not> js_gt (limit (normalize_query (clock s) rq)) (Num 100)"
    and "range_too_long (include_rewards (normalize_query (clock s) rq))
           (retrieve_by (normalize_query (clock s) rq))
           (start_date (normalize_query (clock s) rq))
           (end_date (normalize_query (clock s) rq)) = Inr False"
    and "cache s (digest (normalize_query (clock s) rq)) = Some r"
    and "status (objs s r) = Some ERROR"
  shows "sent (bypassRateLimit digest rq s) = [UndefinedPayload]"
    and "cache (state_after (bypassRateLimit digest rq s)) (digest (normalize_query (clock s) rq)) = None"
  using assms by (simp_all add: bypassRateLimit_def lookup_and_admit_def Let_def)

text \<open>
  C2 on a run whose aggregation failed: the cache holds the task in ERROR state with the
  failure's message; the gate, asked the same query again, removes the entry and sends
  \<open>undefined\<close>, not the task.
\<close>

theorem error_entry_read_sends_undefined:
  "cache (snd (top example_platform cheap_query failing_store (initial_state 0))) ''q6'' = Some 0
   \<and> objs (snd (top example_platform cheap_query failing_store (initial_state 0))) 0 =
       \<lparr> status = Some ERROR, statusMessage = Some ''connection lost'', results = None \<rparr>
   \<and> sent (bypassRateLimit (fixed_digest ''q6'') no_params
        (snd (top example_platform cheap_query failing_store (initial_state 0)))) =
       [UndefinedPayload]
   \<and> cache (state_after (bypassRateLimit (fixed_digest ''q6'') no_params
        (snd (top example_platform cheap_query failing_store (initial_state 0))))) ''q6'' = None"
  by (simp add: top_eval gate_eval)

section \<open>The post-processing loops\<close>

lemma postRewards_Inr:
  "postRewards pf p = Inr (t, p') \<longleftrightarrow>
     payout_sum pf p = Some t \<and> p' = p\<lparr>pending_payout_value := None, total_payout_value := None\<rparr>"
  by (auto simp: postRewards_def payout_sum_def split: option.splits)

lemma set_js_insert: "set (js_insert f x xs) = insert x (set xs)"
  by (induction xs) auto

lemma set_js_sort: "set (js_sort f xs) = set xs"
  by (induction xs) (simp_all add: js_sort_def set_js_insert)

lemma truncate_to_subset: "truncate_to l xs = Inr ys \<Longrightarrow> set ys \<subseteq> set xs"
  by (auto simp: truncate_to_def split: if_splits jsnum.splits dest: in_set_takeD)

lemma sort_by_votes_set: "sort_by_votes d = Inr d' \<Longrightarrow> set d' = set d"
  by (auto simp: sort_by_votes_def set_js_sort split: if_splits)

lemma contribution_loop_result:
  "n \<le> length data \<Longrightarrow> contribution_loop pf ps n data = Inr out \<Longrightarrow>
     \<exists>ys. out = ys @ drop n data \<and>
          (\<forall>y \<in> set ys. \<exists>p \<in> set (take n data). contribution_done pf ps p y)"
proof (induction n arbitrary: data out)
  case 0
  then show ?case by simp
next
  case (Suc i)
  then have i: "i < length data" by simp
  let ?p = "data ! i"
  have mem: "?p \<in> set (take (Suc i) data)"
    using i by (simp add: take_Suc_conv_app_nth)
  have sub: "set (take i data) \<subseteq> set (take (Suc i) data)"
    using i by (auto simp: take_Suc_conv_app_nth)
  from Suc.prems(2) obtain b where b: "predates ps ?p = Inr b"
    by (cases "predates ps ?p") (auto simp: Let_def)
  show ?case
  proof (cases b)
    case True
    let ?d = "take i data @ drop (Suc i) data"
    have run: "contribution_loop pf ps i ?d = Inr out"
      using Suc.prems(2) b True by (simp add: Let_def)
    have len: "i \<le> length ?d" using i by simp
    from Suc.IH[OF len run] obtain ys where
      ys: "out = ys @ drop i ?d" "\<forall>y \<in> set ys. \<exists>p \<in> set (take i ?d). contribution_done pf ps p y"
      by blast
    have d: "drop i ?d = drop (Suc i) data" using i by simp
    have t: "take i ?d = take i data" using i by simp
    have "\<forall>y \<in> set ys. \<exists>p \<in> set (take i data). contribution_done pf ps p y"
      using ys(2) unfolding t .
    then have "\<forall>y \<in> set ys. \<exists>p \<in> set (take (Suc i) data). contribution_done pf ps p y"
      using sub by blast
    moreover have "out = ys @ drop (Suc i) data" using ys(1) unfolding d .
    ultimately show ?thesis by blast
  next
    case False
    show ?thesis
    proof (cases "include_rewards ps")
      case incl: True
      from Suc.prems(2) b False incl obtain r p' where
        pr: "postRewards pf ?p = Inr (r, p')"
        by (cases "postRewards pf ?p") (auto simp: Let_def)
      let ?y = "p'\<lparr>rewards := Some r\<rparr>"
      let ?d = "data[i := ?y]"
      have run: "contribution_loop pf ps i ?d = Inr out"
        using Suc.prems(2) b False incl pr by (simp add: Let_def)
      have len: "i \<le> length ?d" using i by simp
      from Suc.IH[OF len run] obtain ys where
        ys: "out = ys @ drop i ?d" "\<forall>y \<in> set ys. \<exists>p \<in> set (take i ?d). contribution_done pf ps p y"
        by blast
      have d: "drop i ?d = ?y # drop (Suc i) data"
        using i by (simp add: drop_update_cancel flip: Cons_nth_drop_Suc[of i "data[i := ?y]"])
      have t: "take i ?d = take i data" by simp
      have dn: "contribution_done pf ps ?p ?y"
        using pr b False incl by (auto simp: contribution_done_def postRewards_Inr)
      have "out = (ys @ [?y]) @ drop (Suc i) data" using ys(1) d by simp
      moreover have "\<forall>y \<in> set (ys @ [?y]). \<exists>p \<in> set (take (Suc i) data). contribution_done pf ps p y"
      proof -
        have "\<forall>y \<in> set ys. \<exists>p \<in> set (take i data). contribution_done pf ps p y"
          using ys(2) unfolding t .
        then have "\<forall>y \<in> set ys. \<exists>p \<in> set (take (Suc i) data). contribution_done pf ps p y"
          using sub by blast
        then show ?thesis using mem dn by simp blast
      qed
      ultimately show ?thesis by blast
    next
      case excl: False
      have run: "contribution_loop pf ps i data = Inr out"
        using Suc.prems(2) b False excl by (simp add: Let_def)
      have len: "i \<le> length data" using i by simp
      from Suc.IH[OF len run] obtain ys where
        ys: "out = ys @ drop i data" "\<forall>y \<in> set ys. \<exists>p \<in> set (take i data). contribution_done pf ps p y"
        by blast
      have d: "drop i data = ?p # drop (Suc i) data"
        using i by (simp add: Cons_nth_drop_Suc)
      have dn: "contribution_done pf ps ?p ?p"
        using b False excl by (simp add: contribution_done_def)
      have "out = (ys @ [?p]) @ drop (Suc i) data" using ys(1) d by simp
      moreover have "\<forall>y \<in> set (ys @ [?p]). \<exists>p \<in> set (take (Suc i) data). contribution_done pf ps p y"
      proof -
        have "\<forall>y \<in> set ys. \<exists>p \<in> set (take (Suc i) data). contribution_done pf ps p y"
          using ys(2) sub by blast
        then show ?thesis using mem dn by simp blast
      qed
      ultimately show ?thesis by blast
    qed
  qed
qed

lemma process_contributions_result:
  assumes "process_contributions pf ps data = Inr out"
  shows "\<forall>y \<in> set out. \<exists>p \<in> set data. contribution_done pf ps p y"
proof -
  from assms obtain d where d: "contribution_loop pf ps (length data) data = Inr d"
    and o: "set out = set d"
    by (auto simp: process_contributions_def sort_by_votes_set split: sum.splits if_splits)
  from contribution_loop_result[OF _ d] have
    "\<forall>y \<in> set d. \<exists>p \<in> set data. contribution_done pf ps p y" by auto
  then show ?thesis using o by simp
qed

lemma scan_posts_result:
  "scan_posts pf ps ms rw = Inr (b, rw', ms') \<Longrightarrow>
     (b \<longleftrightarrow> (\<exists>p \<in> set ms. predates ps p = Inr True)) \<and>
     (\<not> b \<longrightarrow> (\<forall>p \<in> set ms. predates ps p = Inr False) \<and>
        (if include_rewards ps
         then \<exists>ts. map (payout_sum pf) ms = map Some ts \<and> rw' = foldl (js_add pf) rw ts
         else rw' = rw))"
proof (induction ms arbitrary: rw b rw' ms')
  case Nil
  then show ?case by simp
next
  case (Cons p rest)
  from Cons.prems obtain c where c: "predates ps p = Inr c"
    by (cases "predates ps p") auto
  show ?case
  proof (cases c)
    case True
    then show ?thesis using Cons.prems c by auto
  next
    case False
    show ?thesis
    proof (cases "include_rewards ps")
      case incl: True
      from Cons.prems c False incl obtain r p' where pr: "postRewards pf p = Inr (r, p')"
        by (cases "postRewards pf p") auto
      from Cons.prems c False incl pr obtain rest' where
        rec: "scan_posts pf ps rest (js_add pf rw r) = Inr (b, rw', rest')"
        by (cases "scan_posts pf ps rest (js_add pf rw r)") auto
      have sr: "payout_sum pf p = Some r" using pr by (simp add: postRewards_Inr)
      note ih = Cons.IH[OF rec]
      have 1: "b \<longleftrightarrow> (\<exists>q \<in> set (p # rest). predates ps q = Inr True)"
        using ih[THEN conjunct1] c False by simp
      have 2: "(\<forall>q \<in> set (p # rest). predates ps q = Inr False) \<and>
          (\<exists>ts. map (payout_sum pf) (p # rest) = map Some ts \<and> rw' = foldl (js_add pf) rw ts)"
        if nb: "\<not> b"
      proof -
        from ih[THEN conjunct2] nb have
          all: "\<forall>q \<in> set rest. predates ps q = Inr False"
          and ex: "if include_rewards ps
             then \<exists>ts. map (payout_sum pf) rest = map Some ts \<and>
                       rw' = foldl (js_add pf) (js_add pf rw r) ts
             else rw' = js_add pf rw r"
          by blast+
        from ex incl obtain ts where
          ts: "map (payout_sum pf) rest = map Some ts" "rw' = foldl (js_add pf) (js_add pf rw r) ts"
          by (auto simp only: if_True)
        have "map (payout_sum pf) (p # rest) = map Some (r # ts)" using sr ts(1) by simp
        moreover have "rw' = foldl (js_add pf) rw (r # ts)" using ts(2) by simp
        moreover have "\<forall>q \<in> set (p # rest). predates ps q = Inr False"
          using all c False by simp
        ultimately show ?thesis by blast
      qed
      show ?thesis using 1 2 incl by (simp only: if_True) blast
    next
      case excl: False
      from Cons.prems c False excl obtain rest' where
        rec: "scan_posts pf ps rest rw = Inr (b, rw', rest')"
        by (cases "scan_posts pf ps rest rw") auto
      note ih = Cons.IH[OF rec]
      have 1: "b \<longleftrightarrow> (\<exists>q \<in> set (p # rest). predates ps q = Inr True)"
        using ih[THEN conjunct1] c False by simp
      have 2: "(\<forall>q \<in> set (p # rest). predates ps q = Inr False) \<and> rw' = rw" if nb: "\<not> b"
      proof -
        from ih[THEN conjunct2] nb have
          all: "\<forall>q \<in> set rest. predates ps q = Inr False"
          and ex: "if include_rewards ps
             then \<exists>ts. map (payout_sum pf) rest = map Some ts \<and>
                       rw' = foldl (js_add pf) rw ts
             else rw' = rw"
          by blast+
        have "rw' = rw" using ex excl by (simp only: if_False)
        moreover have "\<forall>q \<in> set (p # rest). predates ps q = Inr False"
          using all c False by simp
        ultimately show ?thesis by blast
      qed
      show ?thesis using 1 2 excl by (simp only: if_False) blast
    qed
  qed
qed

lemma project_loop_result:
  "n \<le> length data \<Longrightarrow> project_loop pf ps n data = Inr out \<Longrightarrow>
     \<exists>ys. out = ys @ drop n data \<and>
          (\<forall>y \<in> set ys. \<exists>g \<in> set (take n data). project_done pf ps g y)"
proof (induction n arbitrary: data out)
  case 0
  then show ?case by simp
next
  case (Suc i)
  then have i: "i < length data" by simp
  let ?g = "data ! i"
  have mem: "?g \<in> set (take (Suc i) data)"
    using i by (simp add: take_Suc_conv_app_nth)
  have sub: "set (take i data) \<subseteq> set (take (Suc i) data)"
    using i by (auto simp: take_Suc_conv_app_nth)
  from Suc.prems(2) obtain ms where ms: "posts ?g = Some ms"
    by (cases "posts ?g") (auto simp: Let_def)
  from Suc.prems(2) ms obtain b rw ms' where sc: "scan_posts pf ps ms (Num 0) = Inr (b, rw, ms')"
    by (cases "scan_posts pf ps ms (Num 0)") (auto simp: Let_def)
  note res = scan_posts_result[OF sc]
  show ?case
  proof (cases b)
    case True
    let ?d = "take i data @ drop (Suc i) data"
    have run: "project_loop pf ps i ?d = Inr out"
      using Suc.prems(2) ms sc True by (simp add: Let_def)
    have len: "i \<le> length ?d" using i by simp
    from Suc.IH[OF len run] obtain ys where
      ys: "out = ys @ drop i ?d" "\<forall>y \<in> set ys. \<exists>g \<in> set (take i ?d). project_done pf ps g y"
      by blast
    have d: "drop i ?d = drop (Suc i) data" using i by simp
    have t: "take i ?d = take i data" using i by simp
    have "\<forall>y \<in> set ys. \<exists>g \<in> set (take i data). project_done pf ps g y"
      using ys(2) unfolding t .
    then have "\<forall>y \<in> set ys. \<exists>g \<in> set (take (Suc i) data). project_done pf ps g y"
      using sub by blast
    moreover have "out = ys @ drop (Suc i) data" using ys(1) unfolding d .
    ultimately show ?thesis by blast
  next
    case False
    from res[THEN conjunct2] False have
      allf: "\<forall>p \<in> set ms. predates ps p = Inr False"
      and ex: "if include_rewards ps
         then \<exists>ts. map (payout_sum pf) ms = map Some ts \<and> rw = foldl (js_add pf) (Num 0) ts
         else rw = Num 0"
      by blast+
    show ?thesis
    proof (cases "include_rewards ps")
      case incl: True
      let ?y = "?g\<lparr>posts := Some ms', rewards := Some rw\<rparr>"
      let ?d = "data[i := ?y]"
      have run: "project_loop pf ps i ?d = Inr out"
        using Suc.prems(2) ms sc False incl by (simp add: Let_def)
      have len: "i \<le> length ?d" using i by simp
      from Suc.IH[OF len run] obtain ys where
        ys: "out = ys @ drop i ?d" "\<forall>y \<in> set ys. \<exists>g \<in> set (take i ?d). project_done pf ps g y"
        by blast
      have d: "drop i ?d = ?y # drop (Suc i) data"
        using i by (simp add: drop_update_cancel flip: Cons_nth_drop_Suc[of i "data[i := ?y]"])
      have t: "take i ?d = take i data" by simp
      from ex incl obtain ts where
        ts: "map (payout_sum pf) ms = map Some ts" "rw = foldl (js_add pf) (Num 0) ts"
        by (auto simp only: if_True)
      have eq: "?y\<lparr>posts := None\<rparr> =
                  ?g\<lparr>posts := None, rewards := Some (foldl (js_add pf) (Num 0) ts)\<rparr>"
        using ts(2) by simp
      have dn: "project_done pf ps ?g ?y"
        unfolding project_done_def using ms allf incl ts(1) eq by (simp only: if_True) blast
      have "out = (ys @ [?y]) @ drop (Suc i) data" using ys(1) d by simp
      moreover have "\<forall>y \<in> set (ys @ [?y]). \<exists>g \<in> set (take (Suc i) data). project_done pf ps g y"
      proof -
        have "\<forall>y \<in> set ys. \<exists>g \<in> set (take i data). project_done pf ps g y"
          using ys(2) unfolding t .
        then have "\<forall>y \<in> set ys. \<exists>g \<in> set (take (Suc i) data). project_done pf ps g y"
          using sub by blast
        then show ?thesis using mem dn by simp blast
      qed
      ultimately show ?thesis by blast
    next
      case excl: False
      let ?y = "?g\<lparr>posts := Some ms'\<rparr>"
      let ?d = "data[i := ?y]"
      have run: "project_loop pf ps i ?d = Inr out"
        using Suc.prems(2) ms sc False excl by (simp add: Let_def)
      have len: "i \<le> length ?d" using i by simp
      from Suc.IH[OF len run] obtain ys where
        ys: "out = ys @ drop i ?d" "\<forall>y \<in> set ys. \<exists>g \<in> set (take i ?d). project_done pf ps g y"
        by blast
      have d: "drop i ?d = ?y # drop (Suc i) data"
        using i by (simp add: drop_update_cancel flip: Cons_nth_drop_Suc[of i "data[i := ?y]"])
      have t: "take i ?d = take i data" by simp
      have eq: "?y\<lparr>posts := None\<rparr> = ?g\<lparr>posts := None\<rparr>" by simp
      have dn: "project_done pf ps ?g ?y"
        unfolding project_done_def using ms allf excl eq by (simp only: if_False) blast
      have "out = (ys @ [?y]) @ drop (Suc i) data" using ys(1) d by simp
      moreover have "\<forall>y \<in> set (ys @ [?y]). \<exists>g \<in> set (take (Suc i) data). project_done pf ps g y"
      proof -
        have "\<forall>y \<in> set ys. \<exists>g \<in> set (take i data). project_done pf ps g y"
          using ys(2) unfolding t .
        then have "\<forall>y \<in> set ys. \<exists>g \<in> set (take (Suc i) data). project_done pf ps g y"
          using sub by blast
        then show ?thesis using mem dn by simp blast
      qed
      ultimately show ?thesis by blast
    qed
  qed
qed

lemma process_projects_result:
  assumes "process_projects pf ps data = Inr out" and "only_new ps \<or> include_rewards ps"
  shows "\<forall>r \<in> set out. posts r = None \<and>
           (\<exists>g \<in> set data. \<exists>y. project_done pf ps g y \<and> r = y\<lparr>posts := None\<rparr>)"
proof -
  from assms obtain d where d: "project_loop pf ps (length data) data = Inr d"
    and o: "out = map (\<lambda>repo. repo\<lparr>posts := None\<rparr>) d"
    by (auto simp: process_projects_def split: sum.splits)
  from project_loop_result[OF _ d] have
    "\<forall>y \<in> set d. \<exists>g \<in> set data. project_done pf ps g y" by auto
  then have "\<forall>y \<in> set d. \<exists>g \<in> set data. \<exists>y'. project_done pf ps g y' \<and>
                y\<lparr>posts := None\<rparr> = y'\<lparr>posts := None\<rparr>"
    by blast
  then show ?thesis unfolding o by simp
qed

lemma top_body_result:
  assumes "top_body pf ps ext = Inr res"
  shows "\<exists>data d. aggregate ext (aggregateQuery ps) = Inr data \<and>
           (if retrieve_by ps = PROJECTS then process_projects pf ps data
            else if retrieve_by ps = CONTRIBUTIONS then process_contributions pf ps data
            else Inr data) = Inr d \<and> set res \<subseteq> set d"
proof -
  from assms obtain data where data: "aggregate ext (aggregateQuery ps) = Inr data"
    by (cases "aggregate ext (aggregateQuery ps)")
       (auto simp: top_body_def split: option.splits)
  let ?proc = "if retrieve_by ps = PROJECTS then process_projects pf ps data
            else if retrieve_by ps = CONTRIBUTIONS then process_contributions pf ps data
            else Inr data"
  from assms data obtain d where d: "?proc = Inr d"
    by (cases ?proc) (auto simp: top_body_def split: option.splits)
  have "truncate_to (limit ps)
          (if include_rewards ps \<and> sort_by ps = REWARDS then sort_by_rewards d else d) = Inr res"
    using assms data d by (auto simp: top_body_def split: option.splits)
  then have "set res \<subseteq> set (if include_rewards ps \<and> sort_by ps = REWARDS
                              then sort_by_rewards d else d)"
    by (rule truncate_to_subset)
  then have "set res \<subseteq> set d"
    by (simp add: sort_by_rewards_def set_js_sort split: if_splits)
  then show ?thesis using data d by blast
qed

lemma predates_False_only_new:
  "only_new ps \<Longrightarrow> predates ps p = Inr False \<Longrightarrow>
     \<exists>ts. start_date ps = DateObj ts \<and> \<not> time_lt (created p) ts"
  by (cases "start_date ps") (auto simp: predates_def)

lemma project_done_ident: "project_done pf ps g y \<Longrightarrow> ident (y\<lparr>posts := None\<rparr>) = ident g"
proof -
  assume "project_done pf ps g y"
  then have "(\<exists>x. y\<lparr>posts := None\<rparr> = g\<lparr>posts := None, rewards := x\<rparr>) \<or>
             y\<lparr>posts := None\<rparr> = g\<lparr>posts := None\<rparr>"
    unfolding project_done_def by (cases "include_rewards ps") (simp only: if_True if_False, blast)+
  then show ?thesis
  proof
    assume "\<exists>x. y\<lparr>posts := None\<rparr> = g\<lparr>posts := None, rewards := x\<rparr>"
    then obtain x where "y\<lparr>posts := None\<rparr> = g\<lparr>posts := None, rewards := x\<rparr>" by blast
    then have "ident (y\<lparr>posts := None\<rparr>) = ident (g\<lparr>posts := None, rewards := x\<rparr>)" by simp
    then show ?thesis by simp
  next
    assume "y\<lparr>posts := None\<rparr> = g\<lparr>posts := None\<rparr>"
    then have "ident (y\<lparr>posts := None\<rparr>) = ident (g\<lparr>posts := None\<rparr>)" by simp
    then show ?thesis by simp
  qed
qed

text \<open>
  C7: for a query by project with \<open>only_new\<close>, the match stage is built without a
  lower bound (\<open>aggregateMatch(undefined, end_date)\<close>). In a successful run every result
  comes from a group none of whose members predates \<open>start_date\<close>, and its member list
  is gone. So, the aggregation naming each project once, a group with a member that
  predates \<open>start_date\<close> is absent from the results, whatever its other members are.
\<close>

theorem only_new_projects:
  assumes "retrieve_by ps = PROJECTS" and "only_new ps" and "top_body pf ps ext = Inr res"
  shows "match_start (aggregateQuery ps) = None \<and>
    (\<exists>data. aggregate ext (aggregateQuery ps) = Inr data \<and>
       (\<forall>r \<in> set res. posts r = None \<and>
          (\<exists>g \<in> set data. ident r = ident g \<and>
             (\<exists>ms. posts g = Some ms \<and>
                (\<forall>p \<in> set ms. \<exists>ts. start_date ps = DateObj ts \<and> \<not> time_lt (created p) ts)))) \<and>
       (distinct (map ident data) \<longrightarrow>
          (\<forall>g \<in> set data. \<forall>ms p ts.
             posts g = Some ms \<and> p \<in> set ms \<and> start_date ps = DateObj ts \<and>
             time_lt (created p) ts \<longrightarrow> ident g \<notin> ident ` set res)))"
proof -
  have m: "match_start (aggregateQuery ps) = None"
    using assms(2) by (simp add: aggregateQuery_def)
  from top_body_result[OF assms(3)] assms(1) obtain data d where
    data: "aggregate ext (aggregateQuery ps) = Inr data"
    and d: "process_projects pf ps data = Inr d" and sub: "set res \<subseteq> set d"
    by auto
  from process_projects_result[OF d] assms(2) have
    pr: "\<forall>r \<in> set d. posts r = None \<and>
           (\<exists>g \<in> set data. \<exists>y. project_done pf ps g y \<and> r = y\<lparr>posts := None\<rparr>)"
    by blast
  have a: "posts r = None \<and>
          (\<exists>g \<in> set data. ident r = ident g \<and>
             (\<exists>ms. posts g = Some ms \<and>
                (\<forall>p \<in> set ms. \<exists>ts. start_date ps = DateObj ts \<and> \<not> time_lt (created p) ts)))"
    if r: "r \<in> set res" for r
  proof -
    from r sub pr obtain g y where g: "g \<in> set data" and y: "project_done pf ps g y"
      and ry: "r = y\<lparr>posts := None\<rparr>" and pn: "posts r = None"
      by blast
    have id: "ident r = ident g" using project_done_ident[OF y] ry by simp
    from y obtain ms where ms: "posts g = Some ms"
      and all: "\<forall>p \<in> set ms. predates ps p = Inr False"
      unfolding project_done_def by blast
    have "\<forall>p \<in> set ms. \<exists>ts. start_date ps = DateObj ts \<and> \<not> time_lt (created p) ts"
      using all predates_False_only_new[OF assms(2)] by blast
    then show ?thesis using pn g id ms by blast
  qed
  have b: "ident g \<notin> ident ` set res"
    if dist: "distinct (map ident data)" and g: "g \<in> set data" and ms: "posts g = Some ms"
      and p: "p \<in> set ms" and sd: "start_date ps = DateObj ts" and lt: "time_lt (created p) ts"
    for g ms p ts
  proof
    assume "ident g \<in> ident ` set res"
    then obtain r where r: "r \<in> set res" and e: "ident r = ident g" by auto
    from a[OF r] obtain g' ms' where g': "g' \<in> set data" and e': "ident r = ident g'"
      and ms': "posts g' = Some ms'"
      and all: "\<forall>p \<in> set ms'. \<exists>ts. start_date ps = DateObj ts \<and> \<not> time_lt (created p) ts"
      by blast
    have "inj_on ident (set data)" using dist by (simp add: distinct_map)
    then have "g' = g" using g g' e e' by (auto dest: inj_onD)
    then have "ms' = ms" using ms ms' by simp
    then show False using all p sd lt by auto
  qed
  show ?thesis using m data a b by blast
qed

lemmas run_eval =
  top_body_def updateRewards_call_def aggregateQuery_def
  process_projects_def process_contributions_def truncate_to_def sort_by_rewards_def
  sort_by_votes_def js_sort_def rewards_num_def votes_def store_of_def example_platform_def
  predates_def postRewards_def first_field_def parse_decimal_def is_digit_def
  digits_value_def example_post_def example_group_def example_contribution_def
  example_groups_def example_contributions_def only_new_query_def contributions_query_def project_rewards_query_def
  CONTRIBUTIONS_def PROJECTS_def REWARDS_def Let_def

lemma example_only_new_run:
  "top_body example_platform only_new_query (store_of example_groups) =
     Inr [\<lparr> ident = ''beta'', created = None, pending_payout_value = None,
            total_payout_value = None, active_votes = None, posts = None, rewards = None \<rparr>]"
  by (simp add: run_eval)

theorem only_new_projects_witness:
  "top_body example_platform only_new_query (store_of example_groups) =
     Inr [\<lparr> ident = ''beta'', created = None, pending_payout_value = None,
            total_payout_value = None, active_votes = None, posts = None, rewards = None \<rparr>]
   \<and> match_start (aggregateQuery only_new_query) = None
   \<and> ident (example_groups ! 0) \<notin>
       ident ` set [\<lparr> ident = ''beta'', created = None, pending_payout_value = None,
            total_payout_value = None, active_votes = None, posts = None, rewards = None \<rparr>]"
proof -
  have run: "top_body example_platform only_new_query (store_of example_groups) =
     Inr [\<lparr> ident = ''beta'', created = None, pending_payout_value = None,
            total_payout_value = None, active_votes = None, posts = None, rewards = None \<rparr>]"
    by (rule example_only_new_run)
  have p: "retrieve_by only_new_query = PROJECTS" "only_new only_new_query"
    by (simp_all add: only_new_query_def PROJECTS_def)
  note t = only_new_projects[OF p run]
  have agg: "aggregate (store_of example_groups) (aggregateQuery only_new_query) = Inr example_groups"
    by (simp add: store_of_def)
  have dist: "distinct (map ident example_groups)"
    by (simp add: example_groups_def example_group_def)
  have g: "example_groups ! 0 \<in> set example_groups"
    by (simp add: example_groups_def)
  have ms: "posts (example_groups ! 0) =
      Some [example_post ''a1'' 100 ''1.5 SBD'' ''0.000 SBD'',
            example_post ''a2'' 50 ''0.25 SBD'' ''2.000 SBD'']"
    by (simp add: example_groups_def example_group_def)
  have old: "time_lt (created (example_post ''a2'' 50 ''0.25 SBD'' ''2.000 SBD'')) (Some 80)"
    by (simp add: example_post_def)
  have sd: "start_date only_new_query = DateObj (Some 80)"
    by (simp add: only_new_query_def)
  from t agg have
    "distinct (map ident example_groups) \<longrightarrow>
          (\<forall>g \<in> set example_groups. \<forall>ms p ts.
             posts g = Some ms \<and> p \<in> set ms \<and> start_date only_new_query = DateObj ts \<and>
             time_lt (created p) ts \<longrightarrow> ident g \<notin> ident ` set [\<lparr> ident = ''beta'', created = None, pending_payout_value = None,
            total_payout_value = None, active_votes = None, posts = None, rewards = None \<rparr>])"
    by simp
  with dist g ms old sd have "ident (example_groups ! 0) \<notin>
       ident ` set [\<lparr> ident = ''beta'', created = None, pending_payout_value = None,
            total_payout_value = None, active_votes = None, posts = None, rewards = None \<rparr>]"
    by (metis list.set_intros(1,2))
  then show ?thesis using run t by blast
qed

text \<open>
  In a successful run with rewards, a result by contribution is its record with the
  total stored and both payout fields cleared; a result by project is its group without
  the member list and with the members' totals added up from 0.
\<close>

lemma results_are_rewarded:
  "(postRewards pf p = Inr (t, p') \<longrightarrow>
      payout_sum pf p = Some t \<and> pending_payout_value p' = None \<and>
      total_payout_value p' = None)
   \<and> (retrieve_by ps = CONTRIBUTIONS \<and> include_rewards ps \<and> top_body pf ps ext = Inr res \<longrightarrow>
        (\<exists>data. aggregate ext (aggregateQuery ps) = Inr data \<and>
           (\<forall>r \<in> set res. \<exists>q \<in> set data. \<exists>t.
              payout_sum pf q = Some t \<and>
              r = q\<lparr>pending_payout_value := None, total_payout_value := None,
                     rewards := Some t\<rparr>)))
   \<and> (retrieve_by ps = PROJECTS \<and> include_rewards ps \<and> top_body pf ps ext = Inr res \<longrightarrow>
        (\<exists>data. aggregate ext (aggregateQuery ps) = Inr data \<and>
           (\<forall>r \<in> set res. \<exists>g \<in> set data. \<exists>ms ts.
              posts g = Some ms \<and> map (payout_sum pf) ms = map Some ts \<and>
              r = g\<lparr>posts := None, rewards := Some (foldl (js_add pf) (Num 0) ts)\<rparr>)))"
proof -
  have a: "payout_sum pf p = Some t \<and> pending_payout_value p' = None \<and>
      total_payout_value p' = None" if "postRewards pf p = Inr (t, p')"
    using that by (simp add: postRewards_Inr)
  have b: "\<exists>data. aggregate ext (aggregateQuery ps) = Inr data \<and>
           (\<forall>r \<in> set res. \<exists>q \<in> set data. \<exists>t.
              payout_sum pf q = Some t \<and>
              r = q\<lparr>pending_payout_value := None, total_payout_value := None,
                     rewards := Some t\<rparr>)"
    if h: "retrieve_by ps = CONTRIBUTIONS" "include_rewards ps" "top_body pf ps ext = Inr res"
  proof -
    have ne: "CONTRIBUTIONS \<noteq> PROJECTS" by (simp add: CONTRIBUTIONS_def PROJECTS_def)
    from top_body_result[OF h(3)] h(1) ne obtain data d where
      data: "aggregate ext (aggregateQuery ps) = Inr data"
      and d: "process_contributions pf ps data = Inr d" and sub: "set res \<subseteq> set d"
      by auto
    note pc = process_contributions_result[OF d]
    have "\<exists>q \<in> set data. \<exists>t. payout_sum pf q = Some t \<and>
              r = q\<lparr>pending_payout_value := None, total_payout_value := None,
                     rewards := Some t\<rparr>" if "r \<in> set res" for r
    proof -
      from that sub pc obtain q where q: "q \<in> set data" and cd: "contribution_done pf ps q r"
        by blast
      from cd h(2) have "\<exists>t. payout_sum pf q = Some t \<and>
                r = q\<lparr>pending_payout_value := None, total_payout_value := None,
                       rewards := Some t\<rparr>"
        unfolding contribution_done_def by (simp only: if_True)
      then show ?thesis using q by blast
    qed
    then show ?thesis using data by blast
  qed
  have c: "\<exists>data. aggregate ext (aggregateQuery ps) = Inr data \<and>
           (\<forall>r \<in> set res. \<exists>g \<in> set data. \<exists>ms ts.
              posts g = Some ms \<and> map (payout_sum pf) ms = map Some ts \<and>
              r = g\<lparr>posts := None, rewards := Some (foldl (js_add pf) (Num 0) ts)\<rparr>)"
    if h: "retrieve_by ps = PROJECTS" "include_rewards ps" "top_body pf ps ext = Inr res"
  proof -
    from top_body_result[OF h(3)] h(1) obtain data d where
      data: "aggregate ext (aggregateQuery ps) = Inr data"
      and d: "process_projects pf ps data = Inr d" and sub: "set res \<subseteq> set d"
      by auto
    from process_projects_result[OF d] h(2) have
      pr: "\<forall>r \<in> set d. posts r = None \<and>
           (\<exists>g \<in> set data. \<exists>y. project_done pf ps g y \<and> r = y\<lparr>posts := None\<rparr>)"
      by blast
    have "\<exists>g \<in> set data. \<exists>ms ts.
              posts g = Some ms \<and> map (payout_sum pf) ms = map Some ts \<and>
              r = g\<lparr>posts := None, rewards := Some (foldl (js_add pf) (Num 0) ts)\<rparr>"
      if "r \<in> set res" for r
    proof -
      from that sub pr obtain g y where g: "g \<in> set data" and y: "project_done pf ps g y"
        and ry: "r = y\<lparr>posts := None\<rparr>"
        by blast
      from y h(2) have "\<exists>ms ts. posts g = Some ms \<and> map (payout_sum pf) ms = map Some ts \<and>
                y\<lparr>posts := None\<rparr> =
                  g\<lparr>posts := None, rewards := Some (foldl (js_add pf) (Num 0) ts)\<rparr>"
        unfolding project_done_def by (simp only: if_True) blast
      then show ?thesis using g ry by blast
    qed
    then show ?thesis using data by blast
  qed
  show ?thesis using a b c by blast
qed

lemma example_contributions_run:
  "top_body example_platform contributions_query (store_of example_contributions) =
     Inr [\<lparr> ident = ''c2'', created = Some 200, pending_payout_value = None,
            total_payout_value = None, active_votes = Some [], posts = None,
            rewards = Some (Num (21 / 2)) \<rparr>,
          \<lparr> ident = ''c1'', created = Some 100, pending_payout_value = None,
            total_payout_value = None, active_votes = Some [], posts = None,
            rewards = Some (Num (15 / 4)) \<rparr>]"
  by (simp add: run_eval)

lemma example_project_rewards_run:
  "top_body example_platform project_rewards_query (store_of example_groups) =
     Inr [\<lparr> ident = ''alpha'', created = None, pending_payout_value = None,
            total_payout_value = None, active_votes = None, posts = None,
            rewards = Some (Num (15 / 4)) \<rparr>,
          \<lparr> ident = ''beta'', created = None, pending_payout_value = None,
            total_payout_value = None, active_votes = None, posts = None,
            rewards = Some (Num 4) \<rparr>]"
  by (simp add: run_eval)

lemma example_postRewards:
  "postRewards example_platform (example_post ''a1'' 100 ''1.5 SBD'' ''2.25 SBD'') =
     Inr (Num (15 / 4),
          \<lparr> ident = ''a1'', created = Some 100, pending_payout_value = None,
            total_payout_value = None, active_votes = Some [] \<rparr>)"
  by (simp add: run_eval)

lemma first_field_amount:
  "CHR '' '' \<notin> set a \<Longrightarrow> first_field (a @ CHR '' '' # c) = a"
  by (induction a) (auto simp: first_field_def)

lemma predates_DateObj: "start_date ps = DateObj ts \<Longrightarrow> predates ps p = Inr (too_old ps ts p)"
  by (simp add: predates_def too_old_def)

lemma postRewards_total:
  "payout_sum pf p = Some t \<Longrightarrow>
     postRewards pf p = Inr (t, p\<lparr>pending_payout_value := None, total_payout_value := None\<rparr>)"
  by (simp add: postRewards_Inr)

lemma postRewards_explicit:
  "pending_payout_value p = Some pe \<Longrightarrow> total_payout_value p = Some pa \<Longrightarrow>
     postRewards pf p =
       Inr (js_add pf (parseFloat pf (first_field pe)) (parseFloat pf (first_field pa)),
            p\<lparr>pending_payout_value := None, total_payout_value := None\<rparr>)"
  by (simp add: postRewards_def)

lemma those_map_Some: "those (map Some ts) = Some ts"
  by (induction ts) simp_all

lemma length_js_insert: "length (js_insert f x xs) = Suc (length xs)"
  by (induction xs) auto

lemma length_js_sort: "length (js_sort f xs) = length xs"
  by (induction xs) (simp_all add: js_sort_def length_js_insert)

lemma truncate_to_nat:
  "n \<le> 100 \<Longrightarrow> truncate_to (Num (real n)) xs = Inr (take n xs)"
  by (simp add: truncate_to_def)

lemma contribution_loop_exact:
  assumes sd: "start_date ps = DateObj ts" and incl: "include_rewards ps"
  shows "n \<le> length data \<Longrightarrow> \<forall>q \<in> set (take n data). payout_sum pf q \<noteq> None \<Longrightarrow>
     contribution_loop pf ps n data =
       Inr (map (rewarded pf) (filter (\<lambda>q. \<not> too_old ps ts q) (take n data)) @ drop n data)"
proof (induction n arbitrary: data)
  case 0
  then show ?case by simp
next
  case (Suc i)
  then have i: "i < length data" by simp
  let ?p = "data ! i"
  have tk: "take (Suc i) data = take i data @ [?p]"
    using i by (simp add: take_Suc_conv_app_nth)
  have pre: "predates ps ?p = Inr (too_old ps ts ?p)" by (rule predates_DateObj[OF sd])
  have all: "\<forall>q \<in> set (take i data). payout_sum pf q \<noteq> None"
    using Suc.prems(2) tk by simp
  show ?case
  proof (cases "too_old ps ts ?p")
    case True
    let ?d = "take i data @ drop (Suc i) data"
    have len: "i \<le> length ?d" using i by simp
    have t: "take i ?d = take i data" using i by simp
    have d: "drop i ?d = drop (Suc i) data" using i by simp
    have all': "\<forall>q \<in> set (take i ?d). payout_sum pf q \<noteq> None" using all unfolding t .
    have "contribution_loop pf ps (Suc i) data = contribution_loop pf ps i ?d"
      using pre True by (simp add: Let_def)
    also have "\<dots> = Inr (map (rewarded pf) (filter (\<lambda>q. \<not> too_old ps ts q) (take i ?d)) @ drop i ?d)"
      by (rule Suc.IH[OF len all'])
    also have "\<dots> = Inr (map (rewarded pf) (filter (\<lambda>q. \<not> too_old ps ts q) (take (Suc i) data))
                       @ drop (Suc i) data)"
      unfolding t d tk using True by simp
    finally show ?thesis .
  next
    case False
    from Suc.prems(2) tk obtain t where pt: "payout_sum pf ?p = Some t" by auto
    let ?y = "?p\<lparr>pending_payout_value := None, total_payout_value := None, rewards := Some t\<rparr>"
    let ?d = "data[i := ?y]"
    have ry: "rewarded pf ?p = ?y" using pt by (simp add: rewarded_def)
    have len: "i \<le> length ?d" using i by simp
    have t: "take i ?d = take i data" by simp
    have d: "drop i ?d = ?y # drop (Suc i) data"
      using i by (simp add: drop_update_cancel flip: Cons_nth_drop_Suc[of i "data[i := ?y]"])
    have all': "\<forall>q \<in> set (take i ?d). payout_sum pf q \<noteq> None" using all unfolding t .
    have "contribution_loop pf ps (Suc i) data = contribution_loop pf ps i ?d"
      using pre False incl postRewards_total[OF pt] by (simp add: Let_def)
    also have "\<dots> = Inr (map (rewarded pf) (filter (\<lambda>q. \<not> too_old ps ts q) (take i ?d)) @ drop i ?d)"
      by (rule Suc.IH[OF len all'])
    also have "\<dots> = Inr (map (rewarded pf) (filter (\<lambda>q. \<not> too_old ps ts q) (take (Suc i) data))
                       @ drop (Suc i) data)"
      unfolding t d tk using False ry by simp
    finally show ?thesis .
  qed
qed

lemma scan_posts_total:
  assumes sd: "start_date ps = DateObj ts" and incl: "include_rewards ps"
  shows "\<forall>p \<in> set ms. payout_sum pf p \<noteq> None \<Longrightarrow> \<exists>r. scan_posts pf ps ms rw = Inr r"
proof (induction ms arbitrary: rw)
  case Nil
  have "scan_posts pf ps [] rw = Inr (False, rw, [])" by simp
  then show ?case by blast
next
  case (Cons p rest)
  have pre: "predates ps p = Inr (too_old ps ts p)" by (rule predates_DateObj[OF sd])
  show ?case
  proof (cases "too_old ps ts p")
    case True
    have "scan_posts pf ps (p # rest) rw = Inr (True, rw, p # rest)"
      using pre True by simp
    then show ?thesis by blast
  next
    case False
    from Cons.prems obtain t where pt: "payout_sum pf p = Some t" by auto
    from Cons.prems have "\<forall>q \<in> set rest. payout_sum pf q \<noteq> None" by simp
    from Cons.IH[OF this] obtain r where r: "scan_posts pf ps rest (js_add pf rw t) = Inr r"
      by blast
    obtain b rw' rest' where "r = (b, rw', rest')" by (cases r)
    then have "scan_posts pf ps (p # rest) rw =
                 Inr (b, rw', p\<lparr>pending_payout_value := None, total_payout_value := None\<rparr> # rest')"
      using pre False incl postRewards_total[OF pt] r by simp
    then show ?thesis by blast
  qed
qed

lemma scan_posts_exact:
  assumes sd: "start_date ps = DateObj ts" and incl: "include_rewards ps"
    and all: "\<forall>p \<in> set ms. payout_sum pf p \<noteq> None"
  shows "\<exists>rw' ms'. scan_posts pf ps ms (Num 0) = Inr (\<exists>p \<in> set ms. too_old ps ts p, rw', ms') \<and>
           ((\<forall>p \<in> set ms. \<not> too_old ps ts p) \<longrightarrow>
              Some rw' = map_option (foldl (js_add pf) (Num 0)) (those (map (payout_sum pf) ms)))"
proof -
  from scan_posts_total[OF sd incl all] obtain r where "scan_posts pf ps ms (Num 0) = Inr r"
    by blast
  then obtain b rw' ms' where sc: "scan_posts pf ps ms (Num 0) = Inr (b, rw', ms')"
    by (cases r) auto
  note res = scan_posts_result[OF sc]
  have pre: "predates ps p = Inr True \<longleftrightarrow> too_old ps ts p" for p :: post
    using predates_DateObj[OF sd, of p] by simp
  have b: "b \<longleftrightarrow> (\<exists>p \<in> set ms. too_old ps ts p)"
    using res[THEN conjunct1] pre by simp
  have tot: "Some rw' = map_option (foldl (js_add pf) (Num 0)) (those (map (payout_sum pf) ms))"
    if nb: "\<forall>p \<in> set ms. \<not> too_old ps ts p"
  proof -
    have "\<not> b" using b nb by simp
    with res[THEN conjunct2] have
      "if include_rewards ps
         then \<exists>us. map (payout_sum pf) ms = map Some us \<and> rw' = foldl (js_add pf) (Num 0) us
         else rw' = Num 0"
      by blast
    with incl obtain us where us: "map (payout_sum pf) ms = map Some us"
      "rw' = foldl (js_add pf) (Num 0) us"
      by (auto simp only: if_True)
    show ?thesis unfolding us(1) those_map_Some using us(2) by simp
  qed
  show ?thesis using sc b tot by blast
qed

lemma project_loop_exact:
  assumes sd: "start_date ps = DateObj ts" and incl: "include_rewards ps"
  shows "n \<le> length data \<Longrightarrow>
     \<forall>g \<in> set (take n data). \<exists>ms. posts g = Some ms \<and> (\<forall>p \<in> set ms. payout_sum pf p \<noteq> None) \<Longrightarrow>
     \<exists>out. project_loop pf ps n data = Inr out \<and>
       map (\<lambda>g. g\<lparr>posts := None\<rparr>) out =
         map (group_rewarded pf) (filter (\<lambda>g. \<not> group_too_old ps ts g) (take n data)) @
         map (\<lambda>g. g\<lparr>posts := None\<rparr>) (drop n data)"
proof (induction n arbitrary: data)
  case 0
  then show ?case by simp
next
  case (Suc i)
  then have i: "i < length data" by simp
  let ?g = "data ! i"
  let ?clr = "\<lambda>g::entry. g\<lparr>posts := None\<rparr>"
  let ?keep = "\<lambda>g. \<not> group_too_old ps ts g"
  have tk: "take (Suc i) data = take i data @ [?g]"
    using i by (simp add: take_Suc_conv_app_nth)
  have all: "\<forall>g \<in> set (take i data). \<exists>ms. posts g = Some ms \<and>
               (\<forall>p \<in> set ms. payout_sum pf p \<noteq> None)"
    using Suc.prems(2) tk by simp
  from Suc.prems(2) tk obtain ms where ms: "posts ?g = Some ms"
    and pay: "\<forall>p \<in> set ms. payout_sum pf p \<noteq> None"
    by auto
  from scan_posts_exact[OF sd incl pay] obtain rw ms' where
    sc: "scan_posts pf ps ms (Num 0) = Inr (\<exists>p \<in> set ms. too_old ps ts p, rw, ms')"
    and tot: "(\<forall>p \<in> set ms. \<not> too_old ps ts p) \<longrightarrow>
              Some rw = map_option (foldl (js_add pf) (Num 0)) (those (map (payout_sum pf) ms))"
    by blast
  have old: "group_too_old ps ts ?g \<longleftrightarrow> (\<exists>p \<in> set ms. too_old ps ts p)"
    using ms by (simp add: group_too_old_def)
  show ?case
  proof (cases "\<exists>p \<in> set ms. too_old ps ts p")
    case True
    let ?d = "take i data @ drop (Suc i) data"
    have len: "i \<le> length ?d" using i by simp
    have t: "take i ?d = take i data" using i by simp
    have d: "drop i ?d = drop (Suc i) data" using i by simp
    have all': "\<forall>g \<in> set (take i ?d). \<exists>ms. posts g = Some ms \<and>
               (\<forall>p \<in> set ms. payout_sum pf p \<noteq> None)"
      using all unfolding t .
    have step: "project_loop pf ps (Suc i) data = project_loop pf ps i ?d"
      using ms sc True by (simp add: Let_def)
    from Suc.IH[OF len all'] obtain out where
      out: "project_loop pf ps i ?d = Inr out"
      "map ?clr out = map (group_rewarded pf) (filter ?keep (take i ?d)) @ map ?clr (drop i ?d)"
      by blast
    have "map ?clr out =
            map (group_rewarded pf) (filter ?keep (take (Suc i) data)) @
            map ?clr (drop (Suc i) data)"
      using out(2) unfolding t d tk using True old by simp
    then show ?thesis using step out(1) by simp
  next
    case False
    let ?y = "?g\<lparr>posts := Some ms', rewards := Some rw\<rparr>"
    let ?d = "data[i := ?y]"
    have len: "i \<le> length ?d" using i by simp
    have t: "take i ?d = take i data" by simp
    have d: "drop i ?d = ?y # drop (Suc i) data"
      using i by (simp add: drop_update_cancel flip: Cons_nth_drop_Suc[of i "data[i := ?y]"])
    have all': "\<forall>g \<in> set (take i ?d). \<exists>ms. posts g = Some ms \<and>
               (\<forall>p \<in> set ms. payout_sum pf p \<noteq> None)"
      using all unfolding t .
    have step: "project_loop pf ps (Suc i) data = project_loop pf ps i ?d"
      using ms sc False incl by (simp add: Let_def)
    have rw: "Some rw = map_option (foldl (js_add pf) (Num 0)) (those (map (payout_sum pf) ms))"
      using tot False by blast
    have "group_rewarded pf ?g = ?g\<lparr>posts := None, rewards := Some rw\<rparr>"
      unfolding group_rewarded_def ms option.case rw[symmetric] ..
    then have gy: "?clr ?y = group_rewarded pf ?g" by simp
    from Suc.IH[OF len all'] obtain out where
      out: "project_loop pf ps i ?d = Inr out"
      "map ?clr out = map (group_rewarded pf) (filter ?keep (take i ?d)) @ map ?clr (drop i ?d)"
      by blast
    have "map ?clr out =
            map (group_rewarded pf) (filter ?keep (take (Suc i) data)) @
            map ?clr (drop (Suc i) data)"
      using out(2) unfolding t d tk using False old gy by simp
    then show ?thesis using step out(1) by simp
  qed
qed

lemma process_projects_exact:
  assumes sd: "start_date ps = DateObj ts" and incl: "include_rewards ps"
    and all: "\<forall>g \<in> set data. \<exists>ms. posts g = Some ms \<and> (\<forall>p \<in> set ms. payout_sum pf p \<noteq> None)"
  shows "process_projects pf ps data =
           Inr (map (group_rewarded pf) (filter (\<lambda>g. \<not> group_too_old ps ts g) data))"
proof -
  have "\<forall>g \<in> set (take (length data) data). \<exists>ms. posts g = Some ms \<and>
          (\<forall>p \<in> set ms. payout_sum pf p \<noteq> None)"
    using all by simp
  from project_loop_exact[OF sd incl le_refl this] obtain out where
    out: "project_loop pf ps (length data) data = Inr out"
    "map (\<lambda>g. g\<lparr>posts := None\<rparr>) out =
       map (group_rewarded pf) (filter (\<lambda>g. \<not> group_too_old ps ts g) data)"
    by auto
  show ?thesis using incl out by (simp add: process_projects_def)
qed

lemma finish_total:
  assumes "n \<le> 100"
  shows "\<exists>res. truncate_to (Num (real n))
                 (if c then sort_by_rewards d else d) = Inr res \<and>
               length res = min n (length d) \<and> set res \<subseteq> set d"
proof -
  let ?s = "if c then sort_by_rewards d else d"
  have l: "length ?s = length d" by (simp add: sort_by_rewards_def length_js_sort)
  have s: "set ?s = set d" by (simp add: sort_by_rewards_def set_js_sort)
  have "truncate_to (Num (real n)) ?s = Inr (take n ?s)" by (rule truncate_to_nat[OF assms])
  moreover have "length (take n ?s) = min n (length d)" using l by simp
  moreover have "set (take n ?s) \<subseteq> set d" using s set_take_subset[of n ?s] by simp
  ultimately show ?thesis by blast
qed

lemma top_body_contributions_total:
  assumes "retrieve_by ps = CONTRIBUTIONS" and incl: "include_rewards ps"
    and sd: "start_date ps = DateObj ts" and "updateRewards_result ext = None"
    and "aggregate ext (aggregateQuery ps) = Inr data"
    and all: "\<forall>q \<in> set data. payout_sum pf q \<noteq> None"
  shows "contribution_loop pf ps (length data) data =
           Inr (map (rewarded pf) (filter (\<lambda>q. \<not> too_old ps ts q) data))"
    and "sort_by ps \<noteq> CONTRIBUTIONS \<Longrightarrow> limit ps = Num (real n) \<Longrightarrow> n \<le> 100 \<Longrightarrow>
         \<exists>res. top_body pf ps ext = Inr res \<and>
           length res = min n (length (filter (\<lambda>q. \<not> too_old ps ts q) data)) \<and>
           set res \<subseteq> set (map (rewarded pf) (filter (\<lambda>q. \<not> too_old ps ts q) data))"
proof -
  let ?d = "map (rewarded pf) (filter (\<lambda>q. \<not> too_old ps ts q) data)"
  have "\<forall>q \<in> set (take (length data) data). payout_sum pf q \<noteq> None" using all by simp
  from contribution_loop_exact[OF sd incl le_refl this]
  show loop: "contribution_loop pf ps (length data) data = Inr ?d" by simp
  assume sb: "sort_by ps \<noteq> CONTRIBUTIONS" and lim: "limit ps = Num (real n)" and n: "n \<le> 100"
  have ne: "CONTRIBUTIONS \<noteq> PROJECTS" by (simp add: CONTRIBUTIONS_def PROJECTS_def)
  have pc: "process_contributions pf ps data = Inr ?d"
    using loop sb by (simp add: process_contributions_def)
  have tb: "top_body pf ps ext =
          truncate_to (Num (real n))
            (if include_rewards ps \<and> sort_by ps = REWARDS then sort_by_rewards ?d else ?d)"
    using assms(1,2,4,5) ne pc lim by (simp add: top_body_def updateRewards_call_def)
  from finish_total[OF n, of "include_rewards ps \<and> sort_by ps = REWARDS" ?d]
  show "\<exists>res. top_body pf ps ext = Inr res \<and>
           length res = min n (length (filter (\<lambda>q. \<not> too_old ps ts q) data)) \<and>
           set res \<subseteq> set ?d"
    unfolding tb by simp
qed

lemma top_body_projects_total:
  assumes "retrieve_by ps = PROJECTS" and incl: "include_rewards ps"
    and sd: "start_date ps = DateObj ts" and "updateRewards_result ext = None"
    and "aggregate ext (aggregateQuery ps) = Inr data"
    and all: "\<forall>g \<in> set data. \<exists>ms. posts g = Some ms \<and> (\<forall>p \<in> set ms. payout_sum pf p \<noteq> None)"
  shows "process_projects pf ps data =
           Inr (map (group_rewarded pf) (filter (\<lambda>g. \<not> group_too_old ps ts g) data))"
    and "limit ps = Num (real n) \<Longrightarrow> n \<le> 100 \<Longrightarrow>
         \<exists>res. top_body pf ps ext = Inr res \<and>
           length res = min n (length (filter (\<lambda>g. \<not> group_too_old ps ts g) data)) \<and>
           set res \<subseteq> set (map (group_rewarded pf) (filter (\<lambda>g. \<not> group_too_old ps ts g) data))"
proof -
  let ?d = "map (group_rewarded pf) (filter (\<lambda>g. \<not> group_too_old ps ts g) data)"
  show pp: "process_projects pf ps data = Inr ?d"
    by (rule process_projects_exact[OF sd incl all])
  assume lim: "limit ps = Num (real n)" and n: "n \<le> 100"
  have tb: "top_body pf ps ext =
          truncate_to (Num (real n))
            (if include_rewards ps \<and> sort_by ps = REWARDS then sort_by_rewards ?d else ?d)"
    using assms(1,2,4,5) pp lim by (simp add: top_body_def updateRewards_call_def)
  from finish_total[OF n, of "include_rewards ps \<and> sort_by ps = REWARDS" ?d]
  show "\<exists>res. top_body pf ps ext = Inr res \<and>
           length res = min n (length (filter (\<lambda>g. \<not> group_too_old ps ts g) data)) \<and>
           set res \<subseteq> set ?d"
    unfolding tb by simp
qed

text \<open>
  C9: \<open>postRewards\<close> on a record that carries both payout strings returns the parsed
  pending payout plus the parsed paid payout, each parsed from the text before the first
  space (the amount of \<open>"<amount> <currency>"\<close>), together with the record with both
  payout fields cleared; whenever it returns, that is what it returned. A run by
  contribution with rewards over records that all carry their payout strings leaves, in
  order, every record that is not too old with its total stored and its payout fields
  cleared, and the runner succeeds with as many of them as the limit allows. A run by
  project with rewards leaves every group that is not too old with the totals of its
  members added up, and the runner succeeds likewise. Every result of a successful run
  with rewards is such a record or group.
\<close>

theorem reward_total:
  "(pending_payout_value p = Some pe \<and> total_payout_value p = Some pa \<longrightarrow>
      postRewards pf p =
        Inr (js_add pf (parseFloat pf (first_field pe)) (parseFloat pf (first_field pa)),
             p\<lparr>pending_payout_value := None, total_payout_value := None\<rparr>))
   \<and> (CHR '' '' \<notin> set amount \<longrightarrow> first_field (amount @ CHR '' '' # currency) = amount)
   \<and> (postRewards pf p = Inr (t, p') \<longrightarrow>
      payout_sum pf p = Some t \<and> pending_payout_value p' = None \<and>
      total_payout_value p' = None)
   \<and> (retrieve_by ps = CONTRIBUTIONS \<and> include_rewards ps \<and> top_body pf ps ext = Inr res \<longrightarrow>
        (\<exists>data. aggregate ext (aggregateQuery ps) = Inr data \<and>
           (\<forall>r \<in> set res. \<exists>q \<in> set data. \<exists>t.
              payout_sum pf q = Some t \<and>
              r = q\<lparr>pending_payout_value := None, total_payout_value := None,
                     rewards := Some t\<rparr>)))
   \<and> (retrieve_by ps = PROJECTS \<and> include_rewards ps \<and> top_body pf ps ext = Inr res \<longrightarrow>
        (\<exists>data. aggregate ext (aggregateQuery ps) = Inr data \<and>
           (\<forall>r \<in> set res. \<exists>g \<in> set data. \<exists>ms ts.
              posts g = Some ms \<and> map (payout_sum pf) ms = map Some ts \<and>
              r = g\<lparr>posts := None, rewards := Some (foldl (js_add pf) (Num 0) ts)\<rparr>)))
   \<and> (retrieve_by ps = CONTRIBUTIONS \<and> include_rewards ps \<and> start_date ps = DateObj sd \<and>
       updateRewards_result ext = None \<and> aggregate ext (aggregateQuery ps) = Inr records \<and>
       (\<forall>q \<in> set records. payout_sum pf q \<noteq> None) \<longrightarrow>
        contribution_loop pf ps (length records) records =
          Inr (map (rewarded pf) (filter (\<lambda>q. \<not> too_old ps sd q) records))
        \<and> (sort_by ps \<noteq> CONTRIBUTIONS \<and> limit ps = Num (real n) \<and> n \<le> 100 \<longrightarrow>
             (\<exists>out. top_body pf ps ext = Inr out \<and>
                length out = min n (length (filter (\<lambda>q. \<not> too_old ps sd q) records)) \<and>
                set out \<subseteq> set (map (rewarded pf) (filter (\<lambda>q. \<not> too_old ps sd q) records)))))
   \<and> (retrieve_by ps = PROJECTS \<and> include_rewards ps \<and> start_date ps = DateObj sd \<and>
       updateRewards_result ext = None \<and> aggregate ext (aggregateQuery ps) = Inr records \<and>
       (\<forall>g \<in> set records. \<exists>ms. posts g = Some ms \<and> (\<forall>m \<in> set ms. payout_sum pf m \<noteq> None)) \<longrightarrow>
        process_projects pf ps records =
          Inr (map (group_rewarded pf) (filter (\<lambda>g. \<not> group_too_old ps sd g) records))
        \<and> (limit ps = Num (real n) \<and> n \<le> 100 \<longrightarrow>
             (\<exists>out. top_body pf ps ext = Inr out \<and>
                length out = min n (length (filter (\<lambda>g. \<not> group_too_old ps sd g) records)) \<and>
                set out \<subseteq> set (map (group_rewarded pf)
                                   (filter (\<lambda>g. \<not> group_too_old ps sd g) records)))))"
proof -
  have a: "pending_payout_value p = Some pe \<and> total_payout_value p = Some pa \<longrightarrow>
      postRewards pf p =
        Inr (js_add pf (parseFloat pf (first_field pe)) (parseFloat pf (first_field pa)),
             p\<lparr>pending_payout_value := None, total_payout_value := None\<rparr>)"
    using postRewards_explicit by blast
  have b: "CHR '' '' \<notin> set amount \<longrightarrow> first_field (amount @ CHR '' '' # currency) = amount"
    using first_field_amount by blast
  note old = results_are_rewarded[of pf p t p' ps ext res]
  have c: "retrieve_by ps = CONTRIBUTIONS \<and> include_rewards ps \<and> start_date ps = DateObj sd \<and>
       updateRewards_result ext = None \<and> aggregate ext (aggregateQuery ps) = Inr records \<and>
       (\<forall>q \<in> set records. payout_sum pf q \<noteq> None) \<longrightarrow>
        contribution_loop pf ps (length records) records =
          Inr (map (rewarded pf) (filter (\<lambda>q. \<not> too_old ps sd q) records))
        \<and> (sort_by ps \<noteq> CONTRIBUTIONS \<and> limit ps = Num (real n) \<and> n \<le> 100 \<longrightarrow>
             (\<exists>out. top_body pf ps ext = Inr out \<and>
                length out = min n (length (filter (\<lambda>q. \<not> too_old ps sd q) records)) \<and>
                set out \<subseteq> set (map (rewarded pf) (filter (\<lambda>q. \<not> too_old ps sd q) records))))"
    using top_body_contributions_total[where ps = ps and ts = sd and ext = ext and data = records and pf = pf] by blast
  have d: "retrieve_by ps = PROJECTS \<and> include_rewards ps \<and> start_date ps = DateObj sd \<and>
       updateRewards_result ext = None \<and> aggregate ext (aggregateQuery ps) = Inr records \<and>
       (\<forall>g \<in> set records. \<exists>ms. posts g = Some ms \<and> (\<forall>m \<in> set ms. payout_sum pf m \<noteq> None)) \<longrightarrow>
        process_projects pf ps records =
          Inr (map (group_rewarded pf) (filter (\<lambda>g. \<not> group_too_old ps sd g) records))
        \<and> (limit ps = Num (real n) \<and> n \<le> 100 \<longrightarrow>
             (\<exists>out. top_body pf ps ext = Inr out \<and>
                length out = min n (length (filter (\<lambda>g. \<not> group_too_old ps sd g) records)) \<and>
                set out \<subseteq> set (map (group_rewarded pf)
                                   (filter (\<lambda>g. \<not> group_too_old ps sd g) records))))"
    using top_body_projects_total[where ps = ps and ts = sd and ext = ext and data = records and pf = pf] by blast
  show ?thesis
    apply (intro conjI)
          apply (rule a)
         apply (rule b)
        apply (rule old[THEN conjunct1])
       apply (rule old[THEN conjunct2, THEN conjunct1])
      apply (rule old[THEN conjunct2, THEN conjunct2])
     apply (rule c)
    apply (rule d)
    done
qed

lemmas reward_eval =
  example_platform_def first_field_def parse_decimal_def is_digit_def digits_value_def
  example_post_def example_group_def example_contribution_def example_groups_def
  example_contributions_def rewarded_def group_rewarded_def payout_sum_def too_old_def
  group_too_old_def Let_def

theorem reward_total_witness:
  "postRewards example_platform (example_post ''a1'' 100 ''1.5 SBD'' ''2.25 SBD'') =
     Inr (Num (15 / 4),
          \<lparr> ident = ''a1'', created = Some 100, pending_payout_value = None,
            total_payout_value = None, active_votes = Some [] \<rparr>)
   \<and> first_field ''1.5 SBD'' = ''1.5''
   \<and> contribution_loop example_platform contributions_query
        (length example_contributions) example_contributions =
       Inr [\<lparr> ident = ''c1'', created = Some 100, pending_payout_value = None,
              total_payout_value = None, active_votes = Some [], posts = None,
              rewards = Some (Num (15 / 4)) \<rparr>,
            \<lparr> ident = ''c2'', created = Some 200, pending_payout_value = None,
              total_payout_value = None, active_votes = Some [], posts = None,
              rewards = Some (Num (21 / 2)) \<rparr>]
   \<and> top_body example_platform contributions_query (store_of example_contributions) =
       Inr [\<lparr> ident = ''c2'', created = Some 200, pending_payout_value = None,
              total_payout_value = None, active_votes = Some [], posts = None,
              rewards = Some (Num (21 / 2)) \<rparr>,
            \<lparr> ident = ''c1'', created = Some 100, pending_payout_value = None,
              total_payout_value = None, active_votes = Some [], posts = None,
              rewards = Some (Num (15 / 4)) \<rparr>]
   \<and> process_projects example_platform project_rewards_query example_groups =
       Inr [\<lparr> ident = ''alpha'', created = None, pending_payout_value = None,
              total_payout_value = None, active_votes = None, posts = None,
              rewards = Some (Num (15 / 4)) \<rparr>,
            \<lparr> ident = ''beta'', created = None, pending_payout_value = None,
              total_payout_value = None, active_votes = None, posts = None,
              rewards = Some (Num 4) \<rparr>]
   \<and> top_body example_platform project_rewards_query (store_of example_groups) =
       Inr [\<lparr> ident = ''alpha'', created = None, pending_payout_value = None,
              total_payout_value = None, active_votes = None, posts = None,
              rewards = Some (Num (15 / 4)) \<rparr>,
            \<lparr> ident = ''beta'', created = None, pending_payout_value = None,
              total_payout_value = None, active_votes = None, posts = None,
              rewards = Some (Num 4) \<rparr>]
   \<and> payout_sum example_platform (example_post ''a1'' 100 ''1.5 SBD'' ''2.25 SBD'') =
       Some (Num (15 / 4))
   \<and> (\<exists>data. aggregate (store_of example_contributions) (aggregateQuery contributions_query) =
                Inr data \<and>
       (\<forall>r \<in> set [\<lparr> ident = ''c2'', created = Some 200, pending_payout_value = None,
              total_payout_value = None, active_votes = Some [], posts = None,
              rewards = Some (Num (21 / 2)) \<rparr>,
            \<lparr> ident = ''c1'', created = Some 100, pending_payout_value = None,
              total_payout_value = None, active_votes = Some [], posts = None,
              rewards = Some (Num (15 / 4)) \<rparr>].
         \<exists>q \<in> set data. \<exists>t. payout_sum example_platform q = Some t \<and>
           r = q\<lparr>pending_payout_value := None, total_payout_value := None,
                  rewards := Some t\<rparr>))
   \<and> (\<exists>data. aggregate (store_of example_groups) (aggregateQuery project_rewards_query) =
                Inr data \<and>
       (\<forall>r \<in> set [\<lparr> ident = ''alpha'', created = None, pending_payout_value = None,
              total_payout_value = None, active_votes = None, posts = None,
              rewards = Some (Num (15 / 4)) \<rparr>,
            \<lparr> ident = ''beta'', created = None, pending_payout_value = None,
              total_payout_value = None, active_votes = None, posts = None,
              rewards = Some (Num 4) \<rparr>].
         \<exists>g \<in> set data. \<exists>ms ts.
           posts g = Some ms \<and> map (payout_sum example_platform) ms = map Some ts \<and>
           r = g\<lparr>posts := None,
                  rewards := Some (foldl (js_add example_platform) (Num 0) ts)\<rparr>))"
proof -
  note T1 = reward_total[where pf = example_platform
      and p = "example_post ''a1'' 100 ''1.5 SBD'' ''2.25 SBD''"
      and pe = "''1.5 SBD''" and pa = "''2.25 SBD''"
      and amount = "''1.5''" and currency = "''SBD''"
      and ps = contributions_query and ext = "store_of example_contributions"
      and records = example_contributions and sd = "Some 80" and n = 5
      and t = "Num (15 / 4)"
      and p' = "\<lparr> ident = ''a1'', created = Some 100, pending_payout_value = None,
            total_payout_value = None, active_votes = Some [] \<rparr>"
      and res = "[\<lparr> ident = ''c2'', created = Some 200, pending_payout_value = None,
              total_payout_value = None, active_votes = Some [], posts = None,
              rewards = Some (Num (21 / 2)) \<rparr>,
            \<lparr> ident = ''c1'', created = Some 100, pending_payout_value = None,
              total_payout_value = None, active_votes = Some [], posts = None,
              rewards = Some (Num (15 / 4)) \<rparr>]"]
  note T2 = reward_total[where pf = example_platform
      and ps = project_rewards_query and ext = "store_of example_groups"
      and records = example_groups and sd = "Some 0" and n = 5
      and res = "[\<lparr> ident = ''alpha'', created = None, pending_payout_value = None,
              total_payout_value = None, active_votes = None, posts = None,
              rewards = Some (Num (15 / 4)) \<rparr>,
            \<lparr> ident = ''beta'', created = None, pending_payout_value = None,
              total_payout_value = None, active_votes = None, posts = None,
              rewards = Some (Num 4) \<rparr>]"]
  have h1: "pending_payout_value (example_post ''a1'' 100 ''1.5 SBD'' ''2.25 SBD'') = Some ''1.5 SBD''
     \<and> total_payout_value (example_post ''a1'' 100 ''1.5 SBD'' ''2.25 SBD'') = Some ''2.25 SBD''"
    by (simp add: example_post_def)
  from T1 h1 have
    "postRewards example_platform (example_post ''a1'' 100 ''1.5 SBD'' ''2.25 SBD'') =
        Inr (js_add example_platform (parseFloat example_platform (first_field ''1.5 SBD''))
               (parseFloat example_platform (first_field ''2.25 SBD'')),
             (example_post ''a1'' 100 ''1.5 SBD'' ''2.25 SBD'')
               \<lparr>pending_payout_value := None, total_payout_value := None\<rparr>)"
    by blast
  then have w1: "postRewards example_platform (example_post ''a1'' 100 ''1.5 SBD'' ''2.25 SBD'') =
     Inr (Num (15 / 4),
          \<lparr> ident = ''a1'', created = Some 100, pending_payout_value = None,
            total_payout_value = None, active_votes = Some [] \<rparr>)"
    by (simp add: reward_eval)
  have h2: "CHR '' '' \<notin> set ''1.5''" by simp
  from T1 h2 have "first_field (''1.5'' @ CHR '' '' # ''SBD'') = ''1.5''" by blast
  then have w2: "first_field ''1.5 SBD'' = ''1.5''" by simp
  have h3: "retrieve_by contributions_query = CONTRIBUTIONS \<and> include_rewards contributions_query \<and>
       start_date contributions_query = DateObj (Some 80) \<and>
       updateRewards_result (store_of example_contributions) = None \<and>
       aggregate (store_of example_contributions) (aggregateQuery contributions_query) =
         Inr example_contributions \<and>
       (\<forall>q \<in> set example_contributions. payout_sum example_platform q \<noteq> None)"
    by (simp add: contributions_query_def CONTRIBUTIONS_def store_of_def
        example_contributions_def example_contribution_def payout_sum_def)
  from T1 h3 have
    "contribution_loop example_platform contributions_query
        (length example_contributions) example_contributions =
       Inr (map (rewarded example_platform)
              (filter (\<lambda>q. \<not> too_old contributions_query (Some 80) q) example_contributions))"
    by blast
  also have "\<dots> =
       Inr [\<lparr> ident = ''c1'', created = Some 100, pending_payout_value = None,
              total_payout_value = None, active_votes = Some [], posts = None,
              rewards = Some (Num (15 / 4)) \<rparr>,
            \<lparr> ident = ''c2'', created = Some 200, pending_payout_value = None,
              total_payout_value = None, active_votes = Some [], posts = None,
              rewards = Some (Num (21 / 2)) \<rparr>]"
    by (simp add: reward_eval contributions_query_def)
  finally have w3: "contribution_loop example_platform contributions_query
        (length example_contributions) example_contributions =
       Inr [\<lparr> ident = ''c1'', created = Some 100, pending_payout_value = None,
              total_payout_value = None, active_votes = Some [], posts = None,
              rewards = Some (Num (15 / 4)) \<rparr>,
            \<lparr> ident = ''c2'', created = Some 200, pending_payout_value = None,
              total_payout_value = None, active_votes = Some [], posts = None,
              rewards = Some (Num (21 / 2)) \<rparr>]" .
  have h4: "retrieve_by project_rewards_query = PROJECTS \<and> include_rewards project_rewards_query \<and>
       start_date project_rewards_query = DateObj (Some 0) \<and>
       updateRewards_result (store_of example_groups) = None \<and>
       aggregate (store_of example_groups) (aggregateQuery project_rewards_query) =
         Inr example_groups \<and>
       (\<forall>g \<in> set example_groups. \<exists>ms. posts g = Some ms \<and>
          (\<forall>m \<in> set ms. payout_sum example_platform m \<noteq> None))"
    by (simp add: project_rewards_query_def PROJECTS_def store_of_def
        example_groups_def example_group_def example_post_def payout_sum_def)
  from T2 h4 have
    "process_projects example_platform project_rewards_query example_groups =
       Inr (map (group_rewarded example_platform)
              (filter (\<lambda>g. \<not> group_too_old project_rewards_query (Some 0) g) example_groups))"
    by blast
  also have "\<dots> =
       Inr [\<lparr> ident = ''alpha'', created = None, pending_payout_value = None,
              total_payout_value = None, active_votes = None, posts = None,
              rewards = Some (Num (15 / 4)) \<rparr>,
            \<lparr> ident = ''beta'', created = None, pending_payout_value = None,
              total_payout_value = None, active_votes = None, posts = None,
              rewards = Some (Num 4) \<rparr>]"
    by (simp add: reward_eval project_rewards_query_def)
  finally have w5: "process_projects example_platform project_rewards_query example_groups =
       Inr [\<lparr> ident = ''alpha'', created = None, pending_payout_value = None,
              total_payout_value = None, active_votes = None, posts = None,
              rewards = Some (Num (15 / 4)) \<rparr>,
            \<lparr> ident = ''beta'', created = None, pending_payout_value = None,
              total_payout_value = None, active_votes = None, posts = None,
              rewards = Some (Num 4) \<rparr>]" .
  from T1 w1 have w6: "payout_sum example_platform
        (example_post ''a1'' 100 ''1.5 SBD'' ''2.25 SBD'') = Some (Num (15 / 4))"
    by blast
  note part1 = T1[THEN conjunct2, THEN conjunct2, THEN conjunct2, THEN conjunct1]
  note part2 = T2[THEN conjunct2, THEN conjunct2, THEN conjunct2, THEN conjunct2, THEN conjunct1]
  from part1 h3 example_contributions_run obtain d1 where
    d1: "aggregate (store_of example_contributions) (aggregateQuery contributions_query) = Inr d1"
    and r1: "\<forall>r \<in> set [\<lparr> ident = ''c2'', created = Some 200, pending_payout_value = None,
              total_payout_value = None, active_votes = Some [], posts = None,
              rewards = Some (Num (21 / 2)) \<rparr>,
            \<lparr> ident = ''c1'', created = Some 100, pending_payout_value = None,
              total_payout_value = None, active_votes = Some [], posts = None,
              rewards = Some (Num (15 / 4)) \<rparr>].
         \<exists>q \<in> set d1. \<exists>t. payout_sum example_platform q = Some t \<and>
           r = q\<lparr>pending_payout_value := None, total_payout_value := None,
                  rewards := Some t\<rparr>"
    by blast
  from d1 r1 have w7: "\<exists>data. aggregate (store_of example_contributions)
        (aggregateQuery contributions_query) = Inr data \<and>
       (\<forall>r \<in> set [\<lparr> ident = ''c2'', created = Some 200, pending_payout_value = None,
              total_payout_value = None, active_votes = Some [], posts = None,
              rewards = Some (Num (21 / 2)) \<rparr>,
            \<lparr> ident = ''c1'', created = Some 100, pending_payout_value = None,
              total_payout_value = None, active_votes = Some [], posts = None,
              rewards = Some (Num (15 / 4)) \<rparr>].
         \<exists>q \<in> set data. \<exists>t. payout_sum example_platform q = Some t \<and>
           r = q\<lparr>pending_payout_value := None, total_payout_value := None,
                  rewards := Some t\<rparr>)"
    by blast
  from part2 h4 example_project_rewards_run obtain d2 where
    d2: "aggregate (store_of example_groups) (aggregateQuery project_rewards_query) = Inr d2"
    and r2: "\<forall>r \<in> set [\<lparr> ident = ''alpha'', created = None, pending_payout_value = None,
              total_payout_value = None, active_votes = None, posts = None,
              rewards = Some (Num (15 / 4)) \<rparr>,
            \<lparr> ident = ''beta'', created = None, pending_payout_value = None,
              total_payout_value = None, active_votes = None, posts = None,
              rewards = Some (Num 4) \<rparr>].
         \<exists>g \<in> set d2. \<exists>ms ts.
           posts g = Some ms \<and> map (payout_sum example_platform) ms = map Some ts \<and>
           r = g\<lparr>posts := None,
                  rewards := Some (foldl (js_add example_platform) (Num 0) ts)\<rparr>"
    by blast
  from d2 r2 have w8: "\<exists>data. aggregate (store_of example_groups)
        (aggregateQuery project_rewards_query) = Inr data \<and>
       (\<forall>r \<in> set [\<lparr> ident = ''alpha'', created = None, pending_payout_value = None,
              total_payout_value = None, active_votes = None, posts = None,
              rewards = Some (Num (15 / 4)) \<rparr>,
            \<lparr> ident = ''beta'', created = None, pending_payout_value = None,
              total_payout_value = None, active_votes = None, posts = None,
              rewards = Some (Num 4) \<rparr>].
         \<exists>g \<in> set data. \<exists>ms ts.
           posts g = Some ms \<and> map (payout_sum example_platform) ms = map Some ts \<and>
           r = g\<lparr>posts := None,
                  rewards := Some (foldl (js_add example_platform) (Num 0) ts)\<rparr>)"
    by blast
  show ?thesis
    apply (intro conjI)
            apply (rule w1)
           apply (rule w2)
          apply (rule w3)
         apply (rule example_contributions_run)
        apply (rule w5)
       apply (rule example_project_rewards_run)
      apply (rule w6)
     apply (rule w7)
    apply (rule w8)
    done
qed

end
